theory Spec2Isabelle
  imports Complex_Main "HOL-Library.AList"
begin

section \<open>Data model\<close>

text \<open>
  A Go \<^verbatim>\<open>map[string]V\<close> is an association list with pairwise distinct keys:
  \<^verbatim>\<open>m[k]\<close> is \<open>map_of m k\<close>, \<^verbatim>\<open>m[k] = v\<close> is \<open>AList.update k v m\<close>, \<^verbatim>\<open>len(m)\<close> is
  \<open>length m\<close>, and a \<^verbatim>\<open>for k, v := range m\<close> loop visits the list from left to right.
  Go leaves the iteration order open; the order of the list stands for whichever
  order one run takes.
\<close>

type_synonym 'v gomap = "(string \<times> 'v) list"

text \<open>\<^verbatim>\<open>prometheus.Labels\<close> is \<^verbatim>\<open>map[string]string\<close>: label name to label value.\<close>

type_synonym Labels = "string gomap"

text \<open>\<^verbatim>\<open>configuration.go\<close>, \<^verbatim>\<open>type ExporterConfig struct\<close>.\<close>

record ExporterConfig =
  cloudflareEmail :: string
  cloudflareKey :: string
  cloudflareToken :: string
  cloudflareUserServiceKey :: string
  cloudflareZones :: string
  cloudflareAccounts :: string
  cloudflareSince :: string
  cloudflareIncludeAccess :: bool

text \<open>
  A \<^verbatim>\<open>*prometheus.GaugeVec\<close>: the \<^verbatim>\<open>GaugeOpts\<close> it was made from, the label names
  given to \<^verbatim>\<open>NewGaugeVec\<close> (in that order), and its child gauges, one per tuple of
  label values (listed in the order of the label names). A gauge holds a
  \<^verbatim>\<open>float64\<close>; every value stored by this program is a finite number, kept as a real.
\<close>

record GaugeVec =
  Name :: string
  Help :: string
  label_names :: "string list"
  metrics :: "(string list \<times> real) list"

text \<open>
  \<^verbatim>\<open>metrics.go\<close>, \<^verbatim>\<open>type CloudflareMetrics struct\<close>. The counter, histogram and summary
  maps are created empty and never touched again; their element type is not needed.
\<close>

record 'api CloudflareMetrics =
  api :: 'api
  zones :: "string list"
  accounts :: "string list"
  since :: string
  includeAccess :: bool
  counters :: "unit gomap"
  gauges :: "GaugeVec gomap"
  histograms :: "unit gomap"
  summaries :: "unit gomap"

text \<open>The three sentinel errors of \<^verbatim>\<open>metrics.go\<close>, and an error handed up from the client library.\<close>

datatype error =
  errNoCloudflareAuth
  | errNoCloudflareZones
  | errNoCloudflareAccounts
  | errLibrary string

text \<open>
  What can stop the process inside an update: \<^verbatim>\<open>GaugeVec.With\<close> panics when the labels do
  not fit the label names of the vector or a label value is not valid UTF-8,
  \<^verbatim>\<open>prometheus.MustRegister\<close> panics when the registry refuses the collector, and a nil
  pointer is dereferenced.
\<close>

datatype panic =
  panicInconsistentLabels
  | panicInvalidLabelValue
  | panicRegister
  | panicNilDereference

text \<open>
  The part of \<^verbatim>\<open>cloudflare.ZoneAnalyticsData\<close> that \<^verbatim>\<open>updateZone\<close> reads. Go's \<^verbatim>\<open>int\<close> and
  \<^verbatim>\<open>int64\<close> are integers here: the program does no arithmetic on them.
\<close>

record ZoneAnalyticsSSL =
  Encrypted :: int
  Unencrypted :: int

record ZoneAnalyticsRequests =
  Requests_All :: int
  Requests_Cached :: int
  Requests_Uncached :: int
  Requests_ContentType :: "int gomap"
  Requests_Country :: "int gomap"
  Requests_SSL :: ZoneAnalyticsSSL
  Requests_HTTPStatus :: "int gomap"

record ZoneAnalyticsBandwidth =
  Bandwidth_All :: int
  Bandwidth_Cached :: int
  Bandwidth_Uncached :: int
  Bandwidth_ContentType :: "int gomap"
  Bandwidth_Country :: "int gomap"
  Bandwidth_SSL :: ZoneAnalyticsSSL

record ZoneAnalyticsThreats =
  Threats_All :: int
  Threats_Country :: "int gomap"
  Threats_Type :: "int gomap"

record ZoneAnalyticsPageviews =
  Pageviews_All :: int
  Pageviews_SearchEngines :: "int gomap"

record ZoneAnalyticsUniques =
  Uniques_All :: int

record ZoneAnalytics =
  Requests :: ZoneAnalyticsRequests
  Bandwidth :: ZoneAnalyticsBandwidth
  Threats :: ZoneAnalyticsThreats
  Pageviews :: ZoneAnalyticsPageviews
  Uniques :: ZoneAnalyticsUniques

record ZoneAnalyticsData =
  Totals :: ZoneAnalytics

text \<open>
  The part of \<^verbatim>\<open>cloudflare.AccessServiceToken\<close> that \<^verbatim>\<open>updateAccount\<close> reads.
  \<^verbatim>\<open>ExpiresAt\<close> is a \<^verbatim>\<open>*time.Time\<close>; here it is the value of \<^verbatim>\<open>ExpiresAt.Unix()\<close>, or
  \<open>None\<close> for the nil pointer.
\<close>

record AccessServiceToken =
  token_Name :: string
  token_ExpiresAt :: "int option"

text \<open>
  The collaborators the program calls and whose code is not part of it: the
  constructors and the three requests of the Cloudflare client, \<^verbatim>\<open>time.ParseDuration\<close>,
  \<^verbatim>\<open>time.Now\<close> and the verdict of \<^verbatim>\<open>prometheus.MustRegister\<close>. A request reads and changes
  the outside world \<open>'w\<close>; an error is \<open>Inl\<close> of its message. Durations are in
  nanoseconds and a time is the nanoseconds since the epoch.
\<close>

record ('api, 'w) env =
  cloudflare_New :: "string \<Rightarrow> string \<Rightarrow> string + 'api"
  cloudflare_NewWithAPIToken :: "string \<Rightarrow> string + 'api"
  cloudflare_NewWithUserServiceKey :: "string \<Rightarrow> string + 'api"
  ZoneIDByName :: "'api \<Rightarrow> string \<Rightarrow> 'w \<Rightarrow> (string + string) \<times> 'w"
  ZoneAnalyticsDashboard ::
    "'api \<Rightarrow> string \<Rightarrow> int \<Rightarrow> bool \<Rightarrow> 'w \<Rightarrow> (string + ZoneAnalyticsData) \<times> 'w"
  AccessServiceTokens :: "'api \<Rightarrow> string \<Rightarrow> 'w \<Rightarrow> (string + AccessServiceToken list) \<times> 'w"
  ParseDuration :: "string \<Rightarrow> string + int"
  Now :: "'w \<Rightarrow> int"
  MustRegister_ok :: "GaugeVec \<Rightarrow> bool"

section \<open>Construction\<close>

text \<open>\<^verbatim>\<open>strings.ReplaceAll(s, " ", "")\<close>: every space is dropped.\<close>

definition strings_ReplaceAll_space :: "string \<Rightarrow> string" where
  "strings_ReplaceAll_space s = filter (\<lambda>c. c \<noteq> CHR '' '') s"

text \<open>\<^verbatim>\<open>strings.Split(s, ",")\<close>: the pieces between the commas; one empty piece for the empty string.\<close>

fun strings_Split_comma :: "string \<Rightarrow> string list" where
  "strings_Split_comma [] = [[]]"
| "strings_Split_comma (c # cs) =
     (if c = CHR '','' then [] # strings_Split_comma cs
      else (case strings_Split_comma cs of
              [] \<Rightarrow> [[c]]
            | w # ws \<Rightarrow> (c # w) # ws))"

definition newWithAPI :: "'api \<Rightarrow> ExporterConfig \<Rightarrow> 'api CloudflareMetrics" where
  "newWithAPI cloudflareApi config =
     \<lparr> api = cloudflareApi,
       zones = strings_Split_comma (strings_ReplaceAll_space (cloudflareZones config)),
       accounts = strings_Split_comma (strings_ReplaceAll_space (cloudflareAccounts config)),
       since = cloudflareSince config,
       includeAccess = cloudflareIncludeAccess config,
       counters = [],
       gauges = [],
       histograms = [],
       summaries = [] \<rparr>"

definition newWithEmailAuth ::
  "('api, 'w) env \<Rightarrow> ExporterConfig \<Rightarrow> error + 'api CloudflareMetrics" where
  "newWithEmailAuth e config =
     (case cloudflare_New e (cloudflareKey config) (cloudflareEmail config) of
        Inl err \<Rightarrow> Inl (errLibrary err)
      | Inr cloudflareApi \<Rightarrow> Inr (newWithAPI cloudflareApi config))"

definition newWithTokenAuth ::
  "('api, 'w) env \<Rightarrow> ExporterConfig \<Rightarrow> error + 'api CloudflareMetrics" where
  "newWithTokenAuth e config =
     (case cloudflare_NewWithAPIToken e (cloudflareToken config) of
        Inl err \<Rightarrow> Inl (errLibrary err)
      | Inr cloudflareApi \<Rightarrow> Inr (newWithAPI cloudflareApi config))"

definition newWithUserServiceKeyAuth ::
  "('api, 'w) env \<Rightarrow> ExporterConfig \<Rightarrow> error + 'api CloudflareMetrics" where
  "newWithUserServiceKeyAuth e config =
     (case cloudflare_NewWithUserServiceKey e (cloudflareUserServiceKey config) of
        Inl err \<Rightarrow> Inl (errLibrary err)
      | Inr cloudflareApi \<Rightarrow> Inr (newWithAPI cloudflareApi config))"

definition New :: "('api, 'w) env \<Rightarrow> ExporterConfig \<Rightarrow> error + 'api CloudflareMetrics" where
  "New e config =
     (if cloudflareZones config = [] then Inl errNoCloudflareZones
      else if cloudflareIncludeAccess config = True \<and> cloudflareAccounts config = []
        then Inl errNoCloudflareAccounts
      else if cloudflareEmail config \<noteq> [] \<and> cloudflareKey config \<noteq> []
        then newWithEmailAuth e config
      else if cloudflareToken config \<noteq> [] then newWithTokenAuth e config
      else if cloudflareUserServiceKey config \<noteq> [] then newWithUserServiceKeyAuth e config
      else Inl errNoCloudflareAuth)"

section \<open>Gauges\<close>

text \<open>
  \<^verbatim>\<open>float64(value)\<close> for an integer: exact up to \<open>2 ^ 53\<close> in magnitude, beyond that
  rounded to 53 significant bits, a tie going to the even neighbour.
\<close>

fun bit_length :: "nat \<Rightarrow> nat" where
  "bit_length n = (if n = 0 then 0 else Suc (bit_length (n div 2)))"

definition float64 :: "int \<Rightarrow> real" where
  "float64 v =
     (let a = \<bar>v\<bar> in
      if a < 2 ^ 53 then real_of_int v
      else
        (let e = bit_length (nat a) - 53;
             q = a div 2 ^ e;
             r = a mod 2 ^ e;
             h = 2 ^ (e - 1);
             q' = (if h < r \<or> (r = h \<and> odd q) then q + 1 else q)
         in real_of_int (sgn v * q' * 2 ^ e)))"

text \<open>\<^verbatim>\<open>prometheus.NewGaugeVec(prometheus.GaugeOpts{Name: name, Help: help}, label_names)\<close>.\<close>

definition NewGaugeVec :: "string \<Rightarrow> string \<Rightarrow> string list \<Rightarrow> GaugeVec" where
  "NewGaugeVec name help names =
     \<lparr> Name = name, Help = help, label_names = names, metrics = [] \<rparr>"

text \<open>
  The label values of \<open>labels\<close> in the order of the label names of a vector;
  \<open>None\<close> when a name has no value in \<open>labels\<close>.
\<close>

fun label_values :: "string list \<Rightarrow> Labels \<Rightarrow> string list option" where
  "label_values [] labels = Some []"
| "label_values (n # ns) labels =
     (case map_of labels n of
        None \<Rightarrow> None
      | Some v \<Rightarrow>
          (case label_values ns labels of
             None \<Rightarrow> None
           | Some vs \<Rightarrow> Some (v # vs)))"

text \<open>
  \<^verbatim>\<open>utf8.ValidString\<close>: the bytes of the string are a sequence of well-formed UTF-8
  encodings. A lead byte below 128 stands alone; 194 to 223 takes one continuation byte,
  224 to 239 two and 240 to 244 three, each between 128 and 191, with the first one
  further confined after 224 (from 160), 237 (to 159), 240 (from 144) and 244 (to 143);
  every other lead byte is refused.
\<close>

definition cont_byte :: "nat \<Rightarrow> nat \<Rightarrow> char \<Rightarrow> bool" where
  "cont_byte lo hi c = (lo \<le> of_char c \<and> (of_char c :: nat) \<le> hi)"

fun utf8_ValidString :: "string \<Rightarrow> bool" where
  "utf8_ValidString [] = True"
| "utf8_ValidString (c # cs) =
     (let b = (of_char c :: nat) in
      if b < 128 then utf8_ValidString cs
      else if 194 \<le> b \<and> b \<le> 223 then
        (case cs of
           c1 # r \<Rightarrow> cont_byte 128 191 c1 \<and> utf8_ValidString r
         | _ \<Rightarrow> False)
      else if 224 \<le> b \<and> b \<le> 239 then
        (case cs of
           c1 # c2 # r \<Rightarrow>
             cont_byte (if b = 224 then 160 else 128) (if b = 237 then 159 else 191) c1 \<and>
             cont_byte 128 191 c2 \<and> utf8_ValidString r
         | _ \<Rightarrow> False)
      else if 240 \<le> b \<and> b \<le> 244 then
        (case cs of
           c1 # c2 # c3 # r \<Rightarrow>
             cont_byte (if b = 240 then 144 else 128) (if b = 244 then 143 else 191) c1 \<and>
             cont_byte 128 191 c2 \<and> cont_byte 128 191 c3 \<and> utf8_ValidString r
         | _ \<Rightarrow> False)
      else False)"

text \<open>Every label value of a label set is valid UTF-8.\<close>

definition valid_values :: "Labels \<Rightarrow> bool" where
  "valid_values labels = list_all (\<lambda>(n, v). utf8_ValidString v) labels"

text \<open>
  \<^verbatim>\<open>g.With(labels)\<close>: panics unless \<open>labels\<close> has as many entries as the vector has
  label names, every label value is valid UTF-8, and \<open>labels\<close> gives a value to each
  label name; otherwise it is the child gauge of that tuple of values, created with
  value 0 when the vector does not hold it yet. The result is the vector and the tuple
  that names the child.
\<close>

definition With :: "GaugeVec \<Rightarrow> Labels \<Rightarrow> panic + (GaugeVec \<times> string list)" where
  "With g labels =
     (if length labels \<noteq> length (label_names g) then Inl panicInconsistentLabels
      else if \<not> valid_values labels then Inl panicInvalidLabelValue
      else
        (case label_values (label_names g) labels of
           None \<Rightarrow> Inl panicInconsistentLabels
         | Some vs \<Rightarrow>
             (if map_of (metrics g) vs = None
              then Inr (g\<lparr>metrics := metrics g @ [(vs, 0)]\<rparr>, vs)
              else Inr (g, vs))))"

text \<open>\<^verbatim>\<open>Set(v)\<close> on the child gauge named by the tuple \<open>vs\<close>.\<close>

definition Set_gauge :: "GaugeVec \<Rightarrow> string list \<Rightarrow> real \<Rightarrow> GaugeVec" where
  "Set_gauge g vs v = g\<lparr>metrics := AList.update vs v (metrics g)\<rparr>"

text \<open>
  The statement \<^verbatim>\<open>cm.gauges[name].With(labels).Set(v)\<close>. A name that the map does not
  hold reads as the nil pointer, and \<^verbatim>\<open>With\<close> on it panics.
\<close>

definition With_Set ::
  "string \<Rightarrow> Labels \<Rightarrow> real \<Rightarrow> 'api CloudflareMetrics \<Rightarrow> panic + 'api CloudflareMetrics" where
  "With_Set name labels v cm =
     (case map_of (gauges cm) name of
        None \<Rightarrow> Inl panicNilDereference
      | Some g \<Rightarrow>
          (case With g labels of
             Inl p \<Rightarrow> Inl p
           | Inr (g', vs) \<Rightarrow>
               Inr (cm\<lparr>gauges := AList.update name (Set_gauge g' vs v) (gauges cm)\<rparr>)))"

definition createGaugeIfNotExists ::
  "('api, 'w) env \<Rightarrow> string \<Rightarrow> string \<Rightarrow> Labels \<Rightarrow> 'api CloudflareMetrics
     \<Rightarrow> panic + 'api CloudflareMetrics" where
  "createGaugeIfNotExists e name help labels cm =
     (case map_of (gauges cm) name of
        Some g \<Rightarrow> Inr cm
      | None \<Rightarrow>
          (let names = map fst labels;
               g = NewGaugeVec name help names
           in if MustRegister_ok e g
              then Inr (cm\<lparr>gauges := AList.update name g (gauges cm)\<rparr>)
              else Inl panicRegister))"

definition updateZoneGauge ::
  "('api, 'w) env \<Rightarrow> string \<Rightarrow> string \<Rightarrow> string \<Rightarrow> string \<Rightarrow> int \<Rightarrow> 'api CloudflareMetrics
     \<Rightarrow> panic + 'api CloudflareMetrics" where
  "updateZoneGauge e zoneId zoneName name help val cm =
     (let labels = [(''zone_id'', zoneId), (''zone_name'', zoneName)] in
      case createGaugeIfNotExists e name help labels cm of
        Inl p \<Rightarrow> Inl p
      | Inr cm1 \<Rightarrow> With_Set name labels (float64 val) cm1)"

text \<open>
  The body of the two \<^verbatim>\<open>for key, value := range values\<close> loops:
  \<^verbatim>\<open>labels[byLabel] = key\<close>, then \<^verbatim>\<open>cm.gauges[name].With(labels).Set(float64(value))\<close>.
\<close>

fun range_values ::
  "string \<Rightarrow> string \<Rightarrow> Labels \<Rightarrow> int gomap \<Rightarrow> 'api CloudflareMetrics
     \<Rightarrow> panic + 'api CloudflareMetrics" where
  "range_values name byLabel labels [] cm = Inr cm"
| "range_values name byLabel labels ((key, val) # rest) cm =
     (let labels1 = AList.update byLabel key labels in
      case With_Set name labels1 (float64 val) cm of
        Inl p \<Rightarrow> Inl p
      | Inr cm1 \<Rightarrow> range_values name byLabel labels1 rest cm1)"

definition updateZoneGaugeByLabel ::
  "('api, 'w) env \<Rightarrow> string \<Rightarrow> string \<Rightarrow> string \<Rightarrow> string \<Rightarrow> string \<Rightarrow> int gomap
     \<Rightarrow> 'api CloudflareMetrics \<Rightarrow> panic + 'api CloudflareMetrics" where
  "updateZoneGaugeByLabel e zoneId zoneName name help byLabel vals cm =
     (let labels =
            AList.update byLabel [] [(''zone_id'', zoneId), (''zone_name'', zoneName)] in
      case createGaugeIfNotExists e name help labels cm of
        Inl p \<Rightarrow> Inl p
      | Inr cm1 \<Rightarrow> range_values name byLabel labels vals cm1)"

definition updateAccountGaugeByLabel ::
  "('api, 'w) env \<Rightarrow> string \<Rightarrow> string \<Rightarrow> string \<Rightarrow> string \<Rightarrow> int gomap
     \<Rightarrow> 'api CloudflareMetrics \<Rightarrow> panic + 'api CloudflareMetrics" where
  "updateAccountGaugeByLabel e accountId name help byLabel vals cm =
     (let labels = AList.update byLabel [] [(''account_id'', accountId)] in
      case createGaugeIfNotExists e name help labels cm of
        Inl p \<Rightarrow> Inl p
      | Inr cm1 \<Rightarrow> range_values name byLabel labels vals cm1)"

section \<open>The update cycle\<close>

text \<open>Statements run one after the other; a panic ends the run.\<close>

fun seqP :: "('s \<Rightarrow> panic + 's) list \<Rightarrow> 's \<Rightarrow> panic + 's" where
  "seqP [] s = Inr s"
| "seqP (f # fs) s = (case f s of Inl p \<Rightarrow> Inl p | Inr s1 \<Rightarrow> seqP fs s1)"

text \<open>A \<^verbatim>\<open>for _, x := range xs\<close> loop over a slice, its body run on each element in turn.\<close>

fun forEach :: "('a \<Rightarrow> 's \<Rightarrow> panic + 's) \<Rightarrow> 'a list \<Rightarrow> 's \<Rightarrow> panic + 's" where
  "forEach body [] s = Inr s"
| "forEach body (x # xs) s =
     (case body x s of Inl p \<Rightarrow> Inl p | Inr s1 \<Rightarrow> forEach body xs s1)"

text \<open>
  The loop of \<^verbatim>\<open>updateAccount\<close> that fills \<^verbatim>\<open>serviceTokenExpirationMap\<close>:
  \<^verbatim>\<open>serviceTokenExpirationMap[data.Name] = data.ExpiresAt.Unix()\<close>.
\<close>

fun tokenExpirations :: "AccessServiceToken list \<Rightarrow> int gomap \<Rightarrow> panic + int gomap" where
  "tokenExpirations [] m = Inr m"
| "tokenExpirations (d # ds) m =
     (case token_ExpiresAt d of
        None \<Rightarrow> Inl panicNilDereference
      | Some t \<Rightarrow> tokenExpirations ds (AList.update (token_Name d) t m))"

fun updateAccount ::
  "('api, 'w) env \<Rightarrow> string \<Rightarrow> 'w \<times> 'api CloudflareMetrics
     \<Rightarrow> panic + ('w \<times> 'api CloudflareMetrics)" where
  "updateAccount e accountId (w, cm) =
     (case AccessServiceTokens e (api cm) accountId w of
        (Inl err, w1) \<Rightarrow> Inr (w1, cm)
      | (Inr accessServiceTokens, w1) \<Rightarrow>
          (case tokenExpirations accessServiceTokens [] of
             Inl p \<Rightarrow> Inl p
           | Inr serviceTokenExpirationMap \<Rightarrow>
               (case updateAccountGaugeByLabel e accountId ''access_service_token_expiration''
                       ''The current unix timestamp at which a service token expires''
                       ''token_name'' serviceTokenExpirationMap cm of
                  Inl p \<Rightarrow> Inl p
                | Inr cm1 \<Rightarrow> Inr (w1, cm1))))"

text \<open>Lines 145 to 169 of \<^verbatim>\<open>updateZone\<close>: the gauges of one zone, from its analytics \<open>d\<close>.\<close>

definition updateZone_gauges ::
  "('api, 'w) env \<Rightarrow> string \<Rightarrow> string \<Rightarrow> ZoneAnalyticsData \<Rightarrow> 'api CloudflareMetrics
     \<Rightarrow> panic + 'api CloudflareMetrics" where
  "updateZone_gauges e zoneId zoneName d cm =
     seqP [
        (\<lambda>c. updateZoneGauge e zoneId zoneName (''cloudflare_requests_rate'' @ since c)
           ''Total number of requests over the last 24h''
           (Requests_All (Requests (Totals d))) c),
        (\<lambda>c. updateZoneGauge e zoneId zoneName (''cloudflare_requests_cached_rate'' @ since c)
           ''Total number of cached requests over the last 24h''
           (Requests_Cached (Requests (Totals d))) c),
        (\<lambda>c. updateZoneGauge e zoneId zoneName (''cloudflare_requests_uncached_rate'' @ since c)
           ''Total number of uncached requests over the last 24h''
           (Requests_Uncached (Requests (Totals d))) c),
        (\<lambda>c. updateZoneGaugeByLabel e zoneId zoneName (''cloudflare_requests_content_type_rate'' @ since c)
           ''Total number of requests over the last 24h by response Content-Type header''
           ''content_type'' (Requests_ContentType (Requests (Totals d))) c),
        (\<lambda>c. updateZoneGaugeByLabel e zoneId zoneName (''cloudflare_requests_country_rate'' @ since c)
           ''Total number of requests over the last 24h by request country''
           ''country'' (Requests_Country (Requests (Totals d))) c),
        (\<lambda>c. updateZoneGauge e zoneId zoneName (''cloudflare_requests_encrypted_rate'' @ since c)
           ''Total number of encrypted requests over the last 24h''
           (Encrypted (Requests_SSL (Requests (Totals d)))) c),
        (\<lambda>c. updateZoneGauge e zoneId zoneName (''cloudflare_requests_unencrypted_rate'' @ since c)
           ''Total number of unencrypted requests over the last 24h''
           (Unencrypted (Requests_SSL (Requests (Totals d)))) c),
        (\<lambda>c. updateZoneGaugeByLabel e zoneId zoneName (''cloudflare_requests_status_rate'' @ since c)
           ''Total number of requests over the last 24h by response code''
           ''status'' (Requests_HTTPStatus (Requests (Totals d))) c),
        (\<lambda>c. updateZoneGauge e zoneId zoneName (''cloudflare_bandwidth_bytes_rate'' @ since c)
           ''Total bandwidth over the last 24h''
           (Bandwidth_All (Bandwidth (Totals d))) c),
        (\<lambda>c. updateZoneGauge e zoneId zoneName (''cloudflare_bandwidth_cached_bytes_rate'' @ since c)
           ''Total cached bandwidth over the last 24h''
           (Bandwidth_Cached (Bandwidth (Totals d))) c),
        (\<lambda>c. updateZoneGauge e zoneId zoneName (''cloudflare_bandwidth_uncached_bytes_rate'' @ since c)
           ''Total uncached bandwidth over the last 24h''
           (Bandwidth_Uncached (Bandwidth (Totals d))) c),
        (\<lambda>c. updateZoneGaugeByLabel e zoneId zoneName (''cloudflare_bandwidth_content_type_bytes_rate'' @ since c)
           ''Total bandwidth over the last 24h by response Content-Type header''
           ''content_type'' (Bandwidth_ContentType (Bandwidth (Totals d))) c),
        (\<lambda>c. updateZoneGaugeByLabel e zoneId zoneName (''cloudflare_bandwidth_country_bytes_rate'' @ since c)
           ''Total bandwidth over the last 24h by request country''
           ''country'' (Bandwidth_Country (Bandwidth (Totals d))) c),
        (\<lambda>c. updateZoneGauge e zoneId zoneName (''cloudflare_bandwidth_encrypted_bytes_rate'' @ since c)
           ''Total encrypted bandwidth over the last 24h''
           (Encrypted (Bandwidth_SSL (Bandwidth (Totals d)))) c),
        (\<lambda>c. updateZoneGauge e zoneId zoneName (''cloudflare_bandwidth_unencrypted_bytes_rate'' @ since c)
           ''Total unencrypted bandwidth over the last 24h''
           (Unencrypted (Bandwidth_SSL (Bandwidth (Totals d)))) c),
        (\<lambda>c. updateZoneGauge e zoneId zoneName (''cloudflare_threats_rate'' @ since c)
           ''Total mitigated threats over the last 24h''
           (Threats_All (Threats (Totals d))) c),
        (\<lambda>c. updateZoneGaugeByLabel e zoneId zoneName (''cloudflare_threats_country_rate'' @ since c)
           ''Total mitigated threats over the last 24h by request country''
           ''country'' (Threats_Country (Threats (Totals d))) c),
        (\<lambda>c. updateZoneGaugeByLabel e zoneId zoneName (''cloudflare_threats_type_rate'' @ since c)
           ''Total mitigated threats over the last 24h by type''
           ''type'' (Threats_Type (Threats (Totals d))) c),
        (\<lambda>c. updateZoneGauge e zoneId zoneName (''cloudflare_pageviews_rate'' @ since c)
           ''Total page views over the last 24h''
           (Pageviews_All (Pageviews (Totals d))) c),
        (\<lambda>c. updateZoneGaugeByLabel e zoneId zoneName (''cloudflare_pageviews_search_engine_rate'' @ since c)
           ''Total page views over the last 24h by search engine''
           ''search_engine'' (Pageviews_SearchEngines (Pageviews (Totals d))) c),
        (\<lambda>c. updateZoneGauge e zoneId zoneName (''cloudflare_uniques_rate'' @ since c)
           ''Total unique visitors over the last 24h''
           (Uniques_All (Uniques (Totals d))) c)
     ] cm"

fun updateZone ::
  "('api, 'w) env \<Rightarrow> string \<Rightarrow> 'w \<times> 'api CloudflareMetrics
     \<Rightarrow> panic + ('w \<times> 'api CloudflareMetrics)" where
  "updateZone e zoneName (w, cm) =
     (case ZoneIDByName e (api cm) zoneName w of
        (Inl err, w1) \<Rightarrow> Inr (w1, cm)
      | (Inr zoneId, w1) \<Rightarrow>
          (let duration = ''-'' @ since cm in
           case ParseDuration e duration of
             Inl err \<Rightarrow> Inr (w1, cm)
           | Inr since_d \<Rightarrow>
               (let optionSince = Now e w1 + since_d;
                    optionContinuous = False
                in case ZoneAnalyticsDashboard e (api cm) zoneId optionSince optionContinuous w1 of
                     (Inl err, w2) \<Rightarrow> Inr (w2, cm)
                   | (Inr d, w2) \<Rightarrow>
                       (case updateZone_gauges e zoneId zoneName d cm of
                          Inl p \<Rightarrow> Inl p
                        | Inr cm1 \<Rightarrow> Inr (w2, cm1)))))"

fun update ::
  "('api, 'w) env \<Rightarrow> 'w \<times> 'api CloudflareMetrics \<Rightarrow> panic + ('w \<times> 'api CloudflareMetrics)" where
  "update e (w, cm) =
     (case (if includeAccess cm = True then forEach (updateAccount e) (accounts cm) (w, cm)
            else Inr (w, cm)) of
        Inl p \<Rightarrow> Inl p
      | Inr (w1, cm1) \<Rightarrow> forEach (updateZone e) (zones cm1) (w1, cm1))"

section \<open>Reading the registry\<close>

text \<open>The value a vector holds for a tuple of label values, \<open>None\<close> when it holds none.\<close>

definition observation :: "'api CloudflareMetrics \<Rightarrow> string \<Rightarrow> string list \<Rightarrow> real option" where
  "observation cm name vs =
     (case map_of (gauges cm) name of None \<Rightarrow> None | Some g \<Rightarrow> map_of (metrics g) vs)"

text \<open>What a vector was made with: its name, help text and label names.\<close>

definition schema ::
  "'api CloudflareMetrics \<Rightarrow> string \<Rightarrow> (string \<times> string \<times> string list) option" where
  "schema cm name =
     (case map_of (gauges cm) name of
        None \<Rightarrow> None
      | Some g \<Rightarrow> Some (Name g, Help g, label_names g))"

text \<open>
  The tuple of label values by which \<^verbatim>\<open>With\<close> finds the child gauge of a label set;
  \<open>None\<close> where \<^verbatim>\<open>With\<close> panics or the name is not registered.
\<close>

definition label_tuple :: "'api CloudflareMetrics \<Rightarrow> string \<Rightarrow> Labels \<Rightarrow> string list option" where
  "label_tuple cm name labels =
     (case map_of (gauges cm) name of
        None \<Rightarrow> None
      | Some g \<Rightarrow>
          (if length labels \<noteq> length (label_names g) then None
           else if \<not> valid_values labels then None
           else label_values (label_names g) labels))"

text \<open>The value a vector holds for a label set.\<close>

definition gauge_value :: "'api CloudflareMetrics \<Rightarrow> string \<Rightarrow> Labels \<Rightarrow> real option" where
  "gauge_value cm name labels =
     (case label_tuple cm name labels of
        None \<Rightarrow> None
      | Some vs \<Rightarrow> observation cm name vs)"

section \<open>The state between updates\<close>

text \<open>
  The metrics of \<^verbatim>\<open>updateZone\<close>: the name without the \<^verbatim>\<open>cm.since\<close> suffix, the help text,
  and the label that breaks the metric down, if any.
\<close>

definition zone_metrics :: "(string \<times> string \<times> string option) list" where
  "zone_metrics = [
     (''cloudflare_requests_rate'',
      ''Total number of requests over the last 24h'',
      None),
     (''cloudflare_requests_cached_rate'',
      ''Total number of cached requests over the last 24h'',
      None),
     (''cloudflare_requests_uncached_rate'',
      ''Total number of uncached requests over the last 24h'',
      None),
     (''cloudflare_requests_content_type_rate'',
      ''Total number of requests over the last 24h by response Content-Type header'',
      Some ''content_type''),
     (''cloudflare_requests_country_rate'',
      ''Total number of requests over the last 24h by request country'',
      Some ''country''),
     (''cloudflare_requests_encrypted_rate'',
      ''Total number of encrypted requests over the last 24h'',
      None),
     (''cloudflare_requests_unencrypted_rate'',
      ''Total number of unencrypted requests over the last 24h'',
      None),
     (''cloudflare_requests_status_rate'',
      ''Total number of requests over the last 24h by response code'',
      Some ''status''),
     (''cloudflare_bandwidth_bytes_rate'',
      ''Total bandwidth over the last 24h'',
      None),
     (''cloudflare_bandwidth_cached_bytes_rate'',
      ''Total cached bandwidth over the last 24h'',
      None),
     (''cloudflare_bandwidth_uncached_bytes_rate'',
      ''Total uncached bandwidth over the last 24h'',
      None),
     (''cloudflare_bandwidth_content_type_bytes_rate'',
      ''Total bandwidth over the last 24h by response Content-Type header'',
      Some ''content_type''),
     (''cloudflare_bandwidth_country_bytes_rate'',
      ''Total bandwidth over the last 24h by request country'',
      Some ''country''),
     (''cloudflare_bandwidth_encrypted_bytes_rate'',
      ''Total encrypted bandwidth over the last 24h'',
      None),
     (''cloudflare_bandwidth_unencrypted_bytes_rate'',
      ''Total unencrypted bandwidth over the last 24h'',
      None),
     (''cloudflare_threats_rate'',
      ''Total mitigated threats over the last 24h'',
      None),
     (''cloudflare_threats_country_rate'',
      ''Total mitigated threats over the last 24h by request country'',
      Some ''country''),
     (''cloudflare_threats_type_rate'',
      ''Total mitigated threats over the last 24h by type'',
      Some ''type''),
     (''cloudflare_pageviews_rate'',
      ''Total page views over the last 24h'',
      None),
     (''cloudflare_pageviews_search_engine_rate'',
      ''Total page views over the last 24h by search engine'',
      Some ''search_engine''),
     (''cloudflare_uniques_rate'',
      ''Total unique visitors over the last 24h'',
      None)
   ]"

text \<open>The label names the program gives the metric of a name; \<open>None\<close> for other names.\<close>

definition expected_labels :: "string \<Rightarrow> string \<Rightarrow> string list option" where
  "expected_labels s name =
     (if name = ''access_service_token_expiration'' then Some [''account_id'', ''token_name'']
      else (case map_of (map (\<lambda>(p, h, by). (p @ s, by)) zone_metrics) name of
              None \<Rightarrow> None
            | Some None \<Rightarrow> Some [''zone_id'', ''zone_name'']
            | Some (Some by) \<Rightarrow> Some [''zone_id'', ''zone_name'', by]))"

text \<open>
  A registry as the program leaves it: a vector is stored under its own name and names no
  label twice, and a vector under one of the program's metric names has the labels the
  program gives that metric.
\<close>

definition cm_inv :: "'api CloudflareMetrics \<Rightarrow> bool" where
  "cm_inv cm =
     (\<forall>name g. map_of (gauges cm) name = Some g \<longrightarrow>
        Name g = name \<and> distinct (label_names g) \<and>
        (\<forall>ls. expected_labels (since cm) name = Some ls \<longrightarrow> set (label_names g) = set ls))"

text \<open>
  The vectors the program makes: the one of \<^verbatim>\<open>updateAccount\<close>, and for the lookback
  \<open>s\<close> the twenty-one of \<^verbatim>\<open>updateZone\<close>, each with its name, its help text and its
  label names, as \<open>createGaugeIfNotExists\<close> hands them to \<^verbatim>\<open>prometheus.MustRegister\<close>.
\<close>

definition account_vector :: GaugeVec where
  "account_vector =
     NewGaugeVec ''access_service_token_expiration''
       ''The current unix timestamp at which a service token expires''
       [''account_id'', ''token_name'']"

definition zone_vectors :: "string \<Rightarrow> GaugeVec list" where
  "zone_vectors s =
     map (\<lambda>(p, h, by).
            NewGaugeVec (p @ s) h
              (case by of
                 None \<Rightarrow> [''zone_id'', ''zone_name'']
               | Some b \<Rightarrow> [''zone_id'', ''zone_name'', b]))
       zone_metrics"

text \<open>The registry takes each of these vectors.\<close>

definition registry_accepts :: "('api, 'w) env \<Rightarrow> string \<Rightarrow> bool" where
  "registry_accepts e s = list_all (MustRegister_ok e) (account_vector # zone_vectors s)"

text \<open>The breakdown keys of a snapshot, and that each of them is valid UTF-8.\<close>

definition snapshot_keys :: "ZoneAnalyticsData \<Rightarrow> string list" where
  "snapshot_keys d =
     concat (map (map fst) [
       Requests_ContentType (Requests (Totals d)),
       Requests_Country (Requests (Totals d)),
       Requests_HTTPStatus (Requests (Totals d)),
       Bandwidth_ContentType (Bandwidth (Totals d)),
       Bandwidth_Country (Bandwidth (Totals d)),
       Threats_Country (Threats (Totals d)),
       Threats_Type (Threats (Totals d)),
       Pageviews_SearchEngines (Pageviews (Totals d))
     ])"

definition snapshot_keys_valid :: "ZoneAnalyticsData \<Rightarrow> bool" where
  "snapshot_keys_valid d = list_all utf8_ValidString (snapshot_keys d)"

text \<open>
  One registry comes after another when every observation of the first is still an
  observation of the second (with whatever value) and every vector of the first is
  still there with the name, help text and label names it had.
\<close>

definition keeps :: "'api CloudflareMetrics \<Rightarrow> 'api CloudflareMetrics \<Rightarrow> bool" where
  "keeps cm cm1 =
     ((\<forall>n ws. observation cm n ws \<noteq> None \<longrightarrow> observation cm1 n ws \<noteq> None) \<and>
      (\<forall>n. schema cm n \<noteq> None \<longrightarrow> schema cm1 n = schema cm n))"

text \<open>
  The expiration of the last token of a list that bears a given name; \<open>None\<close> when no
  token of the list bears it.
\<close>

fun last_expiration :: "AccessServiceToken list \<Rightarrow> string \<Rightarrow> int option" where
  "last_expiration [] n = None"
| "last_expiration (t # ts) n =
     (case last_expiration ts n of
        Some x \<Rightarrow> Some x
      | None \<Rightarrow> (if token_Name t = n then token_ExpiresAt t else None))"

section \<open>Sequences of operations\<close>

text \<open>
  The four functions of \<^verbatim>\<open>metrics.go\<close> that work on one gauge, as values, with the label
  sets each of them hands to \<^verbatim>\<open>With\<close>: none for \<open>createGaugeIfNotExists\<close>, the zone's
  label set for \<open>updateZoneGauge\<close>, and one label set per entry of the map of values for
  the two functions that break a metric down.
\<close>

datatype gauge_operation =
  CreateGaugeIfNotExists string string Labels
  | UpdateZoneGauge string string string string int
  | UpdateZoneGaugeByLabel string string string string string "int gomap"
  | UpdateAccountGaugeByLabel string string string string "int gomap"

fun run_gauge_operation ::
  "('api, 'w) env \<Rightarrow> gauge_operation \<Rightarrow> 'api CloudflareMetrics
     \<Rightarrow> panic + 'api CloudflareMetrics" where
  "run_gauge_operation e (CreateGaugeIfNotExists name hlp labels) cm =
     createGaugeIfNotExists e name hlp labels cm"
| "run_gauge_operation e (UpdateZoneGauge zoneId zoneName name hlp val) cm =
     updateZoneGauge e zoneId zoneName name hlp val cm"
| "run_gauge_operation e (UpdateZoneGaugeByLabel zoneId zoneName name hlp byLabel vals) cm =
     updateZoneGaugeByLabel e zoneId zoneName name hlp byLabel vals cm"
| "run_gauge_operation e (UpdateAccountGaugeByLabel accountId name hlp byLabel vals) cm =
     updateAccountGaugeByLabel e accountId name hlp byLabel vals cm"

fun targets :: "gauge_operation \<Rightarrow> (string \<times> Labels) list" where
  "targets (CreateGaugeIfNotExists name hlp labels) = []"
| "targets (UpdateZoneGauge zoneId zoneName name hlp val) =
     [(name, [(''zone_id'', zoneId), (''zone_name'', zoneName)])]"
| "targets (UpdateZoneGaugeByLabel zoneId zoneName name hlp byLabel vals) =
     map (\<lambda>(key, val).
            (name, AList.update byLabel key [(''zone_id'', zoneId), (''zone_name'', zoneName)]))
       vals"
| "targets (UpdateAccountGaugeByLabel accountId name hlp byLabel vals) =
     map (\<lambda>(key, val). (name, AList.update byLabel key [(''account_id'', accountId)])) vals"


text \<open>
  Lines 145 to 169 of \<^verbatim>\<open>updateZone\<close> as a list of such operations, for the lookback \<open>s\<close>,
  and line 120 of \<^verbatim>\<open>updateAccount\<close>, for the map \<open>m\<close> of expirations.
\<close>

definition zone_operations ::
  "string \<Rightarrow> string \<Rightarrow> string \<Rightarrow> ZoneAnalyticsData \<Rightarrow> gauge_operation list" where
  "zone_operations zoneId zoneName s d = [
     UpdateZoneGauge zoneId zoneName (''cloudflare_requests_rate'' @ s)
       ''Total number of requests over the last 24h''
       (Requests_All (Requests (Totals d))),
     UpdateZoneGauge zoneId zoneName (''cloudflare_requests_cached_rate'' @ s)
       ''Total number of cached requests over the last 24h''
       (Requests_Cached (Requests (Totals d))),
     UpdateZoneGauge zoneId zoneName (''cloudflare_requests_uncached_rate'' @ s)
       ''Total number of uncached requests over the last 24h''
       (Requests_Uncached (Requests (Totals d))),
     UpdateZoneGaugeByLabel zoneId zoneName (''cloudflare_requests_content_type_rate'' @ s)
       ''Total number of requests over the last 24h by response Content-Type header''
       ''content_type'' (Requests_ContentType (Requests (Totals d))),
     UpdateZoneGaugeByLabel zoneId zoneName (''cloudflare_requests_country_rate'' @ s)
       ''Total number of requests over the last 24h by request country''
       ''country'' (Requests_Country (Requests (Totals d))),
     UpdateZoneGauge zoneId zoneName (''cloudflare_requests_encrypted_rate'' @ s)
       ''Total number of encrypted requests over the last 24h''
       (Encrypted (Requests_SSL (Requests (Totals d)))),
     UpdateZoneGauge zoneId zoneName (''cloudflare_requests_unencrypted_rate'' @ s)
       ''Total number of unencrypted requests over the last 24h''
       (Unencrypted (Requests_SSL (Requests (Totals d)))),
     UpdateZoneGaugeByLabel zoneId zoneName (''cloudflare_requests_status_rate'' @ s)
       ''Total number of requests over the last 24h by response code''
       ''status'' (Requests_HTTPStatus (Requests (Totals d))),
     UpdateZoneGauge zoneId zoneName (''cloudflare_bandwidth_bytes_rate'' @ s)
       ''Total bandwidth over the last 24h''
       (Bandwidth_All (Bandwidth (Totals d))),
     UpdateZoneGauge zoneId zoneName (''cloudflare_bandwidth_cached_bytes_rate'' @ s)
       ''Total cached bandwidth over the last 24h''
       (Bandwidth_Cached (Bandwidth (Totals d))),
     UpdateZoneGauge zoneId zoneName (''cloudflare_bandwidth_uncached_bytes_rate'' @ s)
       ''Total uncached bandwidth over the last 24h''
       (Bandwidth_Uncached (Bandwidth (Totals d))),
     UpdateZoneGaugeByLabel zoneId zoneName (''cloudflare_bandwidth_content_type_bytes_rate'' @ s)
       ''Total bandwidth over the last 24h by response Content-Type header''
       ''content_type'' (Bandwidth_ContentType (Bandwidth (Totals d))),
     UpdateZoneGaugeByLabel zoneId zoneName (''cloudflare_bandwidth_country_bytes_rate'' @ s)
       ''Total bandwidth over the last 24h by request country''
       ''country'' (Bandwidth_Country (Bandwidth (Totals d))),
     UpdateZoneGauge zoneId zoneName (''cloudflare_bandwidth_encrypted_bytes_rate'' @ s)
       ''Total encrypted bandwidth over the last 24h''
       (Encrypted (Bandwidth_SSL (Bandwidth (Totals d)))),
     UpdateZoneGauge zoneId zoneName (''cloudflare_bandwidth_unencrypted_bytes_rate'' @ s)
       ''Total unencrypted bandwidth over the last 24h''
       (Unencrypted (Bandwidth_SSL (Bandwidth (Totals d)))),
     UpdateZoneGauge zoneId zoneName (''cloudflare_threats_rate'' @ s)
       ''Total mitigated threats over the last 24h''
       (Threats_All (Threats (Totals d))),
     UpdateZoneGaugeByLabel zoneId zoneName (''cloudflare_threats_country_rate'' @ s)
       ''Total mitigated threats over the last 24h by request country''
       ''country'' (Threats_Country (Threats (Totals d))),
     UpdateZoneGaugeByLabel zoneId zoneName (''cloudflare_threats_type_rate'' @ s)
       ''Total mitigated threats over the last 24h by type''
       ''type'' (Threats_Type (Threats (Totals d))),
     UpdateZoneGauge zoneId zoneName (''cloudflare_pageviews_rate'' @ s)
       ''Total page views over the last 24h''
       (Pageviews_All (Pageviews (Totals d))),
     UpdateZoneGaugeByLabel zoneId zoneName (''cloudflare_pageviews_search_engine_rate'' @ s)
       ''Total page views over the last 24h by search engine''
       ''search_engine'' (Pageviews_SearchEngines (Pageviews (Totals d))),
     UpdateZoneGauge zoneId zoneName (''cloudflare_uniques_rate'' @ s)
       ''Total unique visitors over the last 24h''
       (Uniques_All (Uniques (Totals d)))
   ]"

definition account_operation :: "string \<Rightarrow> int gomap \<Rightarrow> gauge_operation" where
  "account_operation accountId m =
     UpdateAccountGaugeByLabel accountId ''access_service_token_expiration''
       ''The current unix timestamp at which a service token expires'' ''token_name'' m"

text \<open>
  The operations that an update cycle is made of: one on a gauge, the update of an
  account, the update of a zone.
\<close>

datatype operation =
  OpGauge gauge_operation
  | OpUpdateAccount string
  | OpUpdateZone string

definition lift_cm ::
  "('c \<Rightarrow> panic + 'c) \<Rightarrow> 'w \<times> 'c \<Rightarrow> panic + ('w \<times> 'c)" where
  "lift_cm f s = (case f (snd s) of Inl p \<Rightarrow> Inl p | Inr cm1 \<Rightarrow> Inr (fst s, cm1))"

fun run_operation ::
  "('api, 'w) env \<Rightarrow> operation \<Rightarrow> 'w \<times> 'api CloudflareMetrics
     \<Rightarrow> panic + ('w \<times> 'api CloudflareMetrics)" where
  "run_operation e (OpGauge g) s = lift_cm (run_gauge_operation e g) s"
| "run_operation e (OpUpdateAccount accountId) s = updateAccount e accountId s"
| "run_operation e (OpUpdateZone zoneName) s = updateZone e zoneName s"

text \<open>The operations of one call of \<^verbatim>\<open>update\<close>, in the order it runs them.\<close>

definition update_operations :: "'api CloudflareMetrics \<Rightarrow> operation list" where
  "update_operations cm =
     (if includeAccess cm = True then map OpUpdateAccount (accounts cm) else []) @
     map OpUpdateZone (zones cm)"

text \<open>
  The label sets an operation hands to \<^verbatim>\<open>With\<close> when it is run in a state: those of the
  gauge operation; for an account whose tokens are fetched, those of line 120; for a
  zone whose id, duration and analytics are fetched, those of lines 145 to 169; none
  when the account or zone is given up.
\<close>

fun writes ::
  "('api, 'w) env \<Rightarrow> operation \<Rightarrow> 'w \<times> 'api CloudflareMetrics \<Rightarrow> (string \<times> Labels) list" where
  "writes e (OpGauge g) (w, cm) = targets g"
| "writes e (OpUpdateAccount accountId) (w, cm) =
     (case AccessServiceTokens e (api cm) accountId w of
        (Inl err, w1) \<Rightarrow> []
      | (Inr accessServiceTokens, w1) \<Rightarrow>
          (case tokenExpirations accessServiceTokens [] of
             Inl p \<Rightarrow> []
           | Inr m \<Rightarrow> targets (account_operation accountId m)))"
| "writes e (OpUpdateZone zoneName) (w, cm) =
     (case ZoneIDByName e (api cm) zoneName w of
        (Inl err, w1) \<Rightarrow> []
      | (Inr zoneId, w1) \<Rightarrow>
          (case ParseDuration e (''-'' @ since cm) of
             Inl err \<Rightarrow> []
           | Inr since_d \<Rightarrow>
               (case ZoneAnalyticsDashboard e (api cm) zoneId (Now e w1 + since_d) False w1 of
                  (Inl err, w2) \<Rightarrow> []
                | (Inr d, w2) \<Rightarrow>
                    concat (map targets (zone_operations zoneId zoneName (since cm) d)))))"

text \<open>
  The label sets handed to \<^verbatim>\<open>With\<close> by a sequence of operations, each run in the state
  the ones before it leave.
\<close>

fun writes_all ::
  "('api, 'w) env \<Rightarrow> operation list \<Rightarrow> 'w \<times> 'api CloudflareMetrics
     \<Rightarrow> (string \<times> Labels) list" where
  "writes_all e [] s = []"
| "writes_all e (op # ops) s =
     writes e op s @
     (case run_operation e op s of
        Inl p \<Rightarrow> []
      | Inr s1 \<Rightarrow> writes_all e ops s1)"

text \<open>
  Some label set of a list is for the vector \<open>n\<close> and names its tuple \<open>ws\<close>, the label
  sets read against the label names that the vector has in the state \<open>cm\<close>.
\<close>

definition overwrites ::
  "'api CloudflareMetrics \<Rightarrow> string \<Rightarrow> string list \<Rightarrow> (string \<times> Labels) list \<Rightarrow> bool" where
  "overwrites cm n ws T = list_ex (\<lambda>(n1, labels). n1 = n \<and> label_tuple cm n labels = Some ws) T"

section \<open>A sample environment\<close>

text \<open>A small client, clock and registry, and a configuration, to run the program on.\<close>

datatype demo_api = EmailAuth string string | TokenAuth string | UserServiceKeyAuth string

definition demo_data :: ZoneAnalyticsData where
  "demo_data =
     \<lparr> Totals =
         \<lparr> Requests =
             \<lparr> Requests_All = 1000, Requests_Cached = 600, Requests_Uncached = 400,
               Requests_ContentType = [(''html'', 700), (''css'', 300)],
               Requests_Country = [(''US'', 500), (''DE'', 200)],
               Requests_SSL = \<lparr> Encrypted = 900, Unencrypted = 100 \<rparr>,
               Requests_HTTPStatus = [(''200'', 950), (''404'', 50)] \<rparr>,
           Bandwidth =
             \<lparr> Bandwidth_All = 5000, Bandwidth_Cached = 3000, Bandwidth_Uncached = 2000,
               Bandwidth_ContentType = [(''html'', 5000)],
               Bandwidth_Country = [(''US'', 4000), (''DE'', 1000)],
               Bandwidth_SSL = \<lparr> Encrypted = 4500, Unencrypted = 500 \<rparr> \<rparr>,
           Threats =
             \<lparr> Threats_All = 3, Threats_Country = [(''US'', 3)], Threats_Type = [] \<rparr>,
           Pageviews = \<lparr> Pageviews_All = 80, Pageviews_SearchEngines = [] \<rparr>,
           Uniques = \<lparr> Uniques_All = 42 \<rparr> \<rparr> \<rparr>"

definition demo_env :: "(demo_api, nat) env" where
  "demo_env =
     \<lparr> cloudflare_New =
         (\<lambda>key email. if key = [] \<or> email = [] then Inl ''invalid credentials''
                      else Inr (EmailAuth key email)),
       cloudflare_NewWithAPIToken =
         (\<lambda>token. if token = [] then Inl ''invalid credentials'' else Inr (TokenAuth token)),
       cloudflare_NewWithUserServiceKey =
         (\<lambda>key. if key = [] then Inl ''invalid credentials'' else Inr (UserServiceKeyAuth key)),
       ZoneIDByName =
         (\<lambda>a zoneName w.
            (if zoneName = ''badzone.example'' then Inl ''zone could not be found''
             else Inr (''id-'' @ zoneName), Suc w)),
       ZoneAnalyticsDashboard =
         (\<lambda>a zoneId t continuous w.
            (if zoneId = ''id-down.example'' then Inl ''HTTP status 500'' else Inr demo_data,
             Suc w)),
       AccessServiceTokens =
         (\<lambda>a accountId w.
            (if accountId = ''badacct'' then Inl ''HTTP status 403''
             else if accountId = ''acct2''
               then Inr [\<lparr> token_Name = ''deploy'', token_ExpiresAt = Some 1700000000 \<rparr>,
                         \<lparr> token_Name = ''deploy'', token_ExpiresAt = Some 1800000000 \<rparr>]
             else Inr [\<lparr> token_Name = ''tok1'', token_ExpiresAt = Some 1700000000 \<rparr>],
             Suc w)),
       ParseDuration =
         (\<lambda>s. if s = ''-24h'' then Inr (- 86400000000000) else Inl ''time: invalid duration''),
       Now = (\<lambda>w. 1600000000000000000 + int w),
       MustRegister_ok = (\<lambda>g. True) \<rparr>"

definition demo_config :: ExporterConfig where
  "demo_config =
     \<lparr> cloudflareEmail = ''ops@example.com'',
       cloudflareKey = [],
       cloudflareToken = ''t0ken'',
       cloudflareUserServiceKey = ''v1.0-key'',
       cloudflareZones = ''example.com, example.org'',
       cloudflareAccounts = ''acct1'',
       cloudflareSince = ''24h'',
       cloudflareIncludeAccess = True \<rparr>"

definition demo_cm :: "demo_api CloudflareMetrics" where
  "demo_cm = newWithAPI (TokenAuth ''t0ken'') demo_config"


definition demo_registered :: "demo_api CloudflareMetrics" where
  "demo_registered =
     demo_cm\<lparr>gauges :=
       [(''cloudflare_requests_rate24h'',
         NewGaugeVec ''cloudflare_requests_rate24h''
           ''Total number of requests over the last 24h'' [''zone_id'', ''zone_name''])]\<rparr>"


definition demo_country :: "demo_api CloudflareMetrics" where
  "demo_country =
     demo_cm\<lparr>gauges :=
       [(''cloudflare_requests_country_rate24h'',
         \<lparr> Name = ''cloudflare_requests_country_rate24h'',
           Help = ''Total number of requests over the last 24h by request country'',
           label_names = [''zone_id'', ''zone_name'', ''country''],
           metrics = [([''id-example.com'', ''example.com'', ''US''], 500),
                      ([''id-example.com'', ''example.com'', ''DE''], 200)] \<rparr>)]\<rparr>"

definition demo_country_later :: "demo_api CloudflareMetrics" where
  "demo_country_later =
     demo_cm\<lparr>gauges :=
       [(''cloudflare_requests_country_rate24h'',
         \<lparr> Name = ''cloudflare_requests_country_rate24h'',
           Help = ''Total number of requests over the last 24h by request country'',
           label_names = [''zone_id'', ''zone_name'', ''country''],
           metrics = [([''id-example.com'', ''example.com'', ''US''], 500),
                      ([''id-example.com'', ''example.com'', ''DE''], 300)] \<rparr>)]\<rparr>"

definition demo_tokens :: "demo_api CloudflareMetrics" where
  "demo_tokens =
     demo_cm\<lparr>gauges :=
       [(''access_service_token_expiration'',
         \<lparr> Name = ''access_service_token_expiration'',
           Help = ''The current unix timestamp at which a service token expires'',
           label_names = [''account_id'', ''token_name''],
           metrics = [([''acct2'', ''deploy''], 1800000000)] \<rparr>)]\<rparr>"

definition demo_token :: "demo_api CloudflareMetrics" where
  "demo_token =
     demo_cm\<lparr>gauges :=
       [(''access_service_token_expiration'',
         \<lparr> Name = ''access_service_token_expiration'',
           Help = ''The current unix timestamp at which a service token expires'',
           label_names = [''account_id'', ''token_name''],
           metrics = [([''acct1'', ''tok1''], 1700000000)] \<rparr>)]\<rparr>"

section \<open>Properties\<close>

subsection \<open>Association lists\<close>

lemma update_append_fresh:
  "k \<notin> fst ` set al \<Longrightarrow> AList.update k v (al @ [(k, v0)]) = AList.update k v al"
  by (induction al) auto

lemma map_of_None_fst: "map_of al k = None \<Longrightarrow> k \<notin> fst ` set al"
  by (simp add: map_of_eq_None_iff)

lemma update_fresh: "map_of al k = None \<Longrightarrow> AList.update k v al = al @ [(k, v)]"
  by (induction al) (auto split: if_splits)

lemma length_update:
  "length (AList.update k v al) = (if k \<in> fst ` set al then length al else Suc (length al))"
  by (induction al) auto

subsection \<open>Conversion to float64\<close>

declare bit_length.simps [simp del]

lemma bit_length_pow2: "bit_length (2 ^ n) = Suc n"
proof (induction n)
  case 0
  show ?case by (subst bit_length.simps, subst bit_length.simps) simp
next
  case (Suc n)
  show ?case by (subst bit_length.simps) (simp add: Suc)
qed

lemma float64_exact:
  assumes "\<bar>v\<bar> \<le> 2 ^ 53"
  shows "float64 v = real_of_int v"
proof (cases "\<bar>v\<bar> < 2 ^ 53")
  case True
  then show ?thesis by (simp add: float64_def)
next
  case False
  with assms have a: "\<bar>v\<bar> = 2 ^ 53" by simp
  have n: "nat (2 ^ 53 :: int) = 2 ^ 53" by simp
  have b: "bit_length (nat \<bar>v\<bar>) = 54"
    unfolding a n bit_length_pow2 by simp
  have e: "bit_length (nat \<bar>v\<bar>) - 53 = 1" using b by simp
  have s: "sgn v * \<bar>v\<bar> = v" by (simp add: sgn_mult_abs)
  have f: "float64 v = real_of_int (sgn v * 9007199254740992)"
    unfolding float64_def Let_def e using a by simp
  have "sgn v * 9007199254740992 = v" using s a by simp
  with f show ?thesis by simp
qed


lemma float64_500: "float64 500 = 500" and float64_200: "float64 200 = 200"
  by (simp_all add: float64_exact)

lemma float64_300: "float64 300 = 300"
  by (simp add: float64_exact)

lemma float64_1700000000: "float64 1700000000 = 1700000000"
  and float64_1800000000: "float64 1800000000 = 1800000000"
  by (simp_all add: float64_exact)

subsection \<open>Construction\<close>

lemma New_zones: "(New e config = Inl errNoCloudflareZones) = (cloudflareZones config = [])"
  by (simp add: New_def newWithEmailAuth_def newWithTokenAuth_def newWithUserServiceKeyAuth_def
        split: sum.split)

lemma New_accounts: "(New e config = Inl errNoCloudflareAccounts) =
      (cloudflareZones config \<noteq> [] \<and> cloudflareIncludeAccess config \<and>
      cloudflareAccounts config = [])"
  by (simp add: New_def newWithEmailAuth_def newWithTokenAuth_def newWithUserServiceKeyAuth_def
        split: sum.split)

lemma New_auth: "(New e config = Inl errNoCloudflareAuth) =
     (cloudflareZones config \<noteq> [] \<and>
      \<not> (cloudflareIncludeAccess config \<and> cloudflareAccounts config = []) \<and>
      \<not> (cloudflareEmail config \<noteq> [] \<and> cloudflareKey config \<noteq> []) \<and>
      cloudflareToken config = [] \<and> cloudflareUserServiceKey config = [])"
  by (simp add: New_def newWithEmailAuth_def newWithTokenAuth_def newWithUserServiceKeyAuth_def
        split: sum.split)

lemma New_total_with_library:
  assumes a1: "\<forall>k m. k \<noteq> [] \<and> m \<noteq> [] \<longrightarrow> (\<exists>a. cloudflare_New e k m = Inr a)"
    and a2: "\<forall>t. t \<noteq> [] \<longrightarrow> (\<exists>a. cloudflare_NewWithAPIToken e t = Inr a)"
    and a3: "\<forall>k. k \<noteq> [] \<longrightarrow> (\<exists>a. cloudflare_NewWithUserServiceKey e k = Inr a)"
  shows "(\<exists>err. New e config = Inl err) \<longleftrightarrow>
         cloudflareZones config = [] \<or>
         (cloudflareIncludeAccess config \<and> cloudflareAccounts config = []) \<or>
         (\<not> (cloudflareEmail config \<noteq> [] \<and> cloudflareKey config \<noteq> []) \<and>
          cloudflareToken config = [] \<and> cloudflareUserServiceKey config = [])"
proof (cases "cloudflareZones config = [] \<or>
         (cloudflareIncludeAccess config \<and> cloudflareAccounts config = [])")
  case True
  then have "\<exists>err. New e config = Inl err"
    by (cases "cloudflareZones config = []") (simp_all add: New_def)
  with True show ?thesis by blast
next
  case False
  then have z: "cloudflareZones config \<noteq> []"
    and acc: "\<not> (cloudflareIncludeAccess config = True \<and> cloudflareAccounts config = [])"
    by auto
  have n: "New e config =
        (if cloudflareEmail config \<noteq> [] \<and> cloudflareKey config \<noteq> []
           then newWithEmailAuth e config
         else if cloudflareToken config \<noteq> [] then newWithTokenAuth e config
         else if cloudflareUserServiceKey config \<noteq> [] then newWithUserServiceKeyAuth e config
         else Inl errNoCloudflareAuth)"
    unfolding New_def by (subst if_not_P, rule z, subst if_not_P, rule acc, rule refl)
  consider (em) "cloudflareEmail config \<noteq> [] \<and> cloudflareKey config \<noteq> []"
    | (tok) "\<not> (cloudflareEmail config \<noteq> [] \<and> cloudflareKey config \<noteq> [])"
        "cloudflareToken config \<noteq> []"
    | (usk) "\<not> (cloudflareEmail config \<noteq> [] \<and> cloudflareKey config \<noteq> [])"
        "cloudflareToken config = []" "cloudflareUserServiceKey config \<noteq> []"
    | (none) "\<not> (cloudflareEmail config \<noteq> [] \<and> cloudflareKey config \<noteq> [])"
        "cloudflareToken config = []" "cloudflareUserServiceKey config = []"
    by blast
  then show ?thesis
  proof cases
    case em
    with a1 obtain x where "cloudflare_New e (cloudflareKey config) (cloudflareEmail config) = Inr x"
      by blast
    with em n have "New e config = Inr (newWithAPI x config)"
      by (auto simp: newWithEmailAuth_def)
    with em False show ?thesis by simp
  next
    case tok
    with a2 obtain x where "cloudflare_NewWithAPIToken e (cloudflareToken config) = Inr x"
      by blast
    with tok n have "New e config = Inr (newWithAPI x config)"
      by (auto simp: newWithTokenAuth_def)
    with tok False show ?thesis by simp
  next
    case usk
    with a3 obtain x where
      "cloudflare_NewWithUserServiceKey e (cloudflareUserServiceKey config) = Inr x"
      by blast
    with usk n have "New e config = Inr (newWithAPI x config)"
      by (auto simp: newWithUserServiceKeyAuth_def)
    with usk False show ?thesis by simp
  next
    case none
    with n have "New e config = Inl errNoCloudflareAuth" by simp
    with none show ?thesis by simp
  qed
qed

lemma New_Inr_api: "\<forall>cm. New e config = Inr cm \<longrightarrow>
      cm = newWithAPI (api cm) config \<and>
      (if cloudflareEmail config \<noteq> [] \<and> cloudflareKey config \<noteq> []
         then cloudflare_New e (cloudflareKey config) (cloudflareEmail config) = Inr (api cm)
       else if cloudflareToken config \<noteq> []
         then cloudflare_NewWithAPIToken e (cloudflareToken config) = Inr (api cm)
       else cloudflareUserServiceKey config \<noteq> [] \<and>
            cloudflare_NewWithUserServiceKey e (cloudflareUserServiceKey config) = Inr (api cm))"
    by (auto simp: New_def newWithEmailAuth_def newWithTokenAuth_def
        newWithUserServiceKeyAuth_def newWithAPI_def split: sum.splits if_splits)

text \<open>
  Claim C8. \<open>New\<close> returns \<open>errNoCloudflareZones\<close> exactly when the zone string is empty,
  \<open>errNoCloudflareAccounts\<close> exactly when zones are given, access metrics are on and the
  account string is empty, and \<open>errNoCloudflareAuth\<close> exactly when both checks pass and
  neither email with key, nor a token, nor a user service key is set. A state it returns
  holds the client made by the first method available in the order email with key, token,
  user service key. With a client library whose constructors take every non-empty
  credential, these three are the only ways \<open>New\<close> fails.
\<close>

theorem New_failures_and_auth_order:
  "(New e config = Inl errNoCloudflareZones \<longleftrightarrow> cloudflareZones config = []) \<and>
   (New e config = Inl errNoCloudflareAccounts \<longleftrightarrow>
      cloudflareZones config \<noteq> [] \<and> cloudflareIncludeAccess config \<and>
      cloudflareAccounts config = []) \<and>
   (New e config = Inl errNoCloudflareAuth \<longleftrightarrow>
      cloudflareZones config \<noteq> [] \<and>
      \<not> (cloudflareIncludeAccess config \<and> cloudflareAccounts config = []) \<and>
      \<not> (cloudflareEmail config \<noteq> [] \<and> cloudflareKey config \<noteq> []) \<and>
      cloudflareToken config = [] \<and> cloudflareUserServiceKey config = []) \<and>
   (\<forall>cm. New e config = Inr cm \<longrightarrow>
      cm = newWithAPI (api cm) config \<and>
      (if cloudflareEmail config \<noteq> [] \<and> cloudflareKey config \<noteq> []
         then cloudflare_New e (cloudflareKey config) (cloudflareEmail config) = Inr (api cm)
       else if cloudflareToken config \<noteq> []
         then cloudflare_NewWithAPIToken e (cloudflareToken config) = Inr (api cm)
       else cloudflareUserServiceKey config \<noteq> [] \<and>
            cloudflare_NewWithUserServiceKey e (cloudflareUserServiceKey config) = Inr (api cm))) \<and>
   ((\<forall>k m. k \<noteq> [] \<and> m \<noteq> [] \<longrightarrow> (\<exists>a. cloudflare_New e k m = Inr a)) \<and>
    (\<forall>t. t \<noteq> [] \<longrightarrow> (\<exists>a. cloudflare_NewWithAPIToken e t = Inr a)) \<and>
    (\<forall>k. k \<noteq> [] \<longrightarrow> (\<exists>a. cloudflare_NewWithUserServiceKey e k = Inr a)) \<longrightarrow>
      ((\<exists>err. New e config = Inl err) \<longleftrightarrow>
         cloudflareZones config = [] \<or>
         (cloudflareIncludeAccess config \<and> cloudflareAccounts config = []) \<or>
         (\<not> (cloudflareEmail config \<noteq> [] \<and> cloudflareKey config \<noteq> []) \<and>
          cloudflareToken config = [] \<and> cloudflareUserServiceKey config = [])))"
proof (intro conjI)
  show "(\<forall>k m. k \<noteq> [] \<and> m \<noteq> [] \<longrightarrow> (\<exists>a. cloudflare_New e k m = Inr a)) \<and>
    (\<forall>t. t \<noteq> [] \<longrightarrow> (\<exists>a. cloudflare_NewWithAPIToken e t = Inr a)) \<and>
    (\<forall>k. k \<noteq> [] \<longrightarrow> (\<exists>a. cloudflare_NewWithUserServiceKey e k = Inr a)) \<longrightarrow>
      ((\<exists>err. New e config = Inl err) \<longleftrightarrow>
         cloudflareZones config = [] \<or>
         (cloudflareIncludeAccess config \<and> cloudflareAccounts config = []) \<or>
         (\<not> (cloudflareEmail config \<noteq> [] \<and> cloudflareKey config \<noteq> []) \<and>
          cloudflareToken config = [] \<and> cloudflareUserServiceKey config = []))"
  proof
    assume a: "(\<forall>k m. k \<noteq> [] \<and> m \<noteq> [] \<longrightarrow> (\<exists>a. cloudflare_New e k m = Inr a)) \<and>
    (\<forall>t. t \<noteq> [] \<longrightarrow> (\<exists>a. cloudflare_NewWithAPIToken e t = Inr a)) \<and>
    (\<forall>k. k \<noteq> [] \<longrightarrow> (\<exists>a. cloudflare_NewWithUserServiceKey e k = Inr a))"
    show "(\<exists>err. New e config = Inl err) \<longleftrightarrow>
         cloudflareZones config = [] \<or>
         (cloudflareIncludeAccess config \<and> cloudflareAccounts config = []) \<or>
         (\<not> (cloudflareEmail config \<noteq> [] \<and> cloudflareKey config \<noteq> []) \<and>
          cloudflareToken config = [] \<and> cloudflareUserServiceKey config = [])"
      by (rule New_total_with_library) (use a in blast)+
  qed
qed (rule New_zones New_accounts New_auth New_Inr_api)+

theorem New_failures_and_auth_order_witness:
  "New demo_env demo_config \<noteq> Inl errNoCloudflareZones \<and>
   cloudflareEmail demo_config \<noteq> [] \<and> cloudflareKey demo_config = [] \<and>
   New demo_env demo_config = Inr demo_cm \<and>
   cloudflare_NewWithAPIToken demo_env (cloudflareToken demo_config) = Inr (api demo_cm)"
proof -
  have n: "New demo_env demo_config = Inr demo_cm"
    by (simp add: demo_config_def demo_cm_def demo_env_def New_def newWithTokenAuth_def)
  have c: "cloudflareEmail demo_config \<noteq> []" "cloudflareKey demo_config = []"
    "cloudflareToken demo_config \<noteq> []" "cloudflareZones demo_config \<noteq> []"
    by (simp_all add: demo_config_def)
  note th = New_failures_and_auth_order[of demo_env demo_config]
  from th c have 1: "New demo_env demo_config \<noteq> Inl errNoCloudflareZones" by blast
  from th have "\<forall>cm. New demo_env demo_config = Inr cm \<longrightarrow>
      (if cloudflareEmail demo_config \<noteq> [] \<and> cloudflareKey demo_config \<noteq> []
         then cloudflare_New demo_env (cloudflareKey demo_config) (cloudflareEmail demo_config) = Inr (api cm)
       else if cloudflareToken demo_config \<noteq> []
         then cloudflare_NewWithAPIToken demo_env (cloudflareToken demo_config) = Inr (api cm)
       else cloudflareUserServiceKey demo_config \<noteq> [] \<and>
            cloudflare_NewWithUserServiceKey demo_env (cloudflareUserServiceKey demo_config) = Inr (api cm))"
    by blast
  with n c have 2: "cloudflare_NewWithAPIToken demo_env (cloudflareToken demo_config) = Inr (api demo_cm)"
    by simp
  from 1 2 n c show ?thesis by blast
qed

lemma newWithTokenAuth_email_key:
  "newWithTokenAuth e (config\<lparr>cloudflareEmail := x\<rparr>) = newWithTokenAuth e config"
  "newWithTokenAuth e (config\<lparr>cloudflareKey := y\<rparr>) = newWithTokenAuth e config"
  by (simp_all add: newWithTokenAuth_def newWithAPI_def split: sum.split)

lemma newWithUserServiceKeyAuth_email_key:
  "newWithUserServiceKeyAuth e (config\<lparr>cloudflareEmail := x\<rparr>) =
     newWithUserServiceKeyAuth e config"
  "newWithUserServiceKeyAuth e (config\<lparr>cloudflareKey := y\<rparr>) =
     newWithUserServiceKeyAuth e config"
  by (simp_all add: newWithUserServiceKeyAuth_def newWithAPI_def split: sum.split)

text \<open>
  Claim C10. With the email or the key empty, \<open>New\<close> goes on to the token, then to the
  user service key, and returns \<open>errNoCloudflareAuth\<close> when both are empty too; an email
  without a key (or a key without an email) changes nothing in the result.
\<close>

theorem New_email_alone_is_ignored:
  assumes "cloudflareEmail config = [] \<or> cloudflareKey config = []"
  shows "New e config =
           (if cloudflareZones config = [] then Inl errNoCloudflareZones
            else if cloudflareIncludeAccess config \<and> cloudflareAccounts config = []
              then Inl errNoCloudflareAccounts
            else if cloudflareToken config \<noteq> [] then newWithTokenAuth e config
            else if cloudflareUserServiceKey config \<noteq> []
              then newWithUserServiceKeyAuth e config
            else Inl errNoCloudflareAuth) \<and>
         (cloudflareKey config = [] \<longrightarrow>
            New e config = New e (config\<lparr>cloudflareEmail := []\<rparr>)) \<and>
         (cloudflareEmail config = [] \<longrightarrow>
            New e config = New e (config\<lparr>cloudflareKey := []\<rparr>))"
  using assms
  by (auto simp: New_def newWithTokenAuth_email_key newWithUserServiceKeyAuth_email_key)

theorem New_email_alone_is_ignored_witness:
  "(cloudflareEmail demo_config = [] \<or> cloudflareKey demo_config = []) \<and>
   cloudflareEmail demo_config \<noteq> [] \<and>
   New demo_env demo_config = newWithTokenAuth demo_env demo_config \<and>
   New demo_env demo_config = New demo_env (demo_config\<lparr>cloudflareEmail := []\<rparr>)"
proof -
  have k: "cloudflareKey demo_config = []" and m: "cloudflareEmail demo_config \<noteq> []"
    and z: "cloudflareZones demo_config \<noteq> []" "cloudflareAccounts demo_config \<noteq> []"
      "cloudflareToken demo_config \<noteq> []"
    by (simp_all add: demo_config_def)
  from k have h: "cloudflareEmail demo_config = [] \<or> cloudflareKey demo_config = []" ..
  note th = New_email_alone_is_ignored[OF h, of demo_env]
  from th z have 1: "New demo_env demo_config = newWithTokenAuth demo_env demo_config" by simp
  from th k have 2: "New demo_env demo_config = New demo_env (demo_config\<lparr>cloudflareEmail := []\<rparr>)"
    by blast
  from h m 1 2 show ?thesis by blast
qed

subsection \<open>Creating a vector and writing a value\<close>

lemma valid_values_Nil [simp]: "valid_values [] = True"
  by (simp add: valid_values_def)

lemma valid_values_Cons [simp]:
  "valid_values ((n, v) # labels) = (utf8_ValidString v \<and> valid_values labels)"
  by (simp add: valid_values_def)

lemma valid_values_update:
  "valid_values labels \<Longrightarrow> utf8_ValidString v \<Longrightarrow> valid_values (AList.update k v labels)"
  by (induction labels) (auto simp: valid_values_def)

lemma With_Set_gauge:
  assumes "With g labels = Inr (g1, vs)"
  shows "Set_gauge g1 vs v = g\<lparr>metrics := AList.update vs v (metrics g)\<rparr>"
  using assms
  by (auto simp: With_def Set_gauge_def update_append_fresh map_of_None_fst
      split: if_splits option.splits)

lemma With_Inr_iff:
  "(\<exists>g1. With g labels = Inr (g1, vs)) \<longleftrightarrow>
     length labels = length (label_names g) \<and> valid_values labels \<and>
     label_values (label_names g) labels = Some vs"
  by (auto simp: With_def split: if_splits option.splits)

lemma With_Set_Inr_iff:
  "With_Set name labels v cm = Inr cm1 \<longleftrightarrow>
     (\<exists>g vs. map_of (gauges cm) name = Some g \<and>
        length labels = length (label_names g) \<and> valid_values labels \<and>
        label_values (label_names g) labels = Some vs \<and>
        cm1 = cm\<lparr>gauges :=
                 AList.update name (g\<lparr>metrics := AList.update vs v (metrics g)\<rparr>) (gauges cm)\<rparr>)"
proof (cases "map_of (gauges cm) name")
  case None
  then show ?thesis by (simp add: With_Set_def)
next
  case (Some g)
  show ?thesis
  proof (cases "With g labels")
    case (Inl p)
    then have "\<not> (length labels = length (label_names g) \<and> valid_values labels \<and>
        (\<exists>vs. label_values (label_names g) labels = Some vs))"
      by (auto simp: With_def split: if_splits option.splits)
    with Some Inl show ?thesis by (auto simp: With_Set_def)
  next
    case (Inr r)
    obtain g1 vs where r: "r = (g1, vs)" by (cases r)
    from Inr r have w: "With g labels = Inr (g1, vs)" by simp
    then have lv: "length labels = length (label_names g)" "valid_values labels"
      "label_values (label_names g) labels = Some vs"
      using With_Inr_iff[of g labels vs] by blast+
    from Some w show ?thesis
      by (auto simp: With_Set_def With_Set_gauge[OF w] lv)
  qed
qed

lemma createGaugeIfNotExists_present:
  "map_of (gauges cm) name = Some g \<Longrightarrow> createGaugeIfNotExists e name help labels cm = Inr cm"
  by (simp add: createGaugeIfNotExists_def)

lemma createGaugeIfNotExists_absent:
  assumes "map_of (gauges cm) name = None"
  shows "createGaugeIfNotExists e name hlp labels cm =
           (if MustRegister_ok e (NewGaugeVec name hlp (map fst labels))
            then Inr (cm\<lparr>gauges := gauges cm @ [(name, NewGaugeVec name hlp (map fst labels))]\<rparr>)
            else Inl panicRegister)"
  using assms by (simp add: createGaugeIfNotExists_def Let_def update_fresh)

lemma createGaugeIfNotExists_cases:
  assumes "createGaugeIfNotExists e name hlp labels cm = Inr cm1"
  obtains (present) g where "map_of (gauges cm) name = Some g" "cm1 = cm"
  | (absent) "map_of (gauges cm) name = None"
      "MustRegister_ok e (NewGaugeVec name hlp (map fst labels))"
      "cm1 = cm\<lparr>gauges := gauges cm @ [(name, NewGaugeVec name hlp (map fst labels))]\<rparr>"
      "map_of (gauges cm1) = (map_of (gauges cm))(name \<mapsto> NewGaugeVec name hlp (map fst labels))"
proof (cases "map_of (gauges cm) name")
  case None
  with assms have r: "MustRegister_ok e (NewGaugeVec name hlp (map fst labels))"
    and c: "cm1 = cm\<lparr>gauges := AList.update name (NewGaugeVec name hlp (map fst labels)) (gauges cm)\<rparr>"
    by (auto simp: createGaugeIfNotExists_def Let_def split: if_splits)
  from c have m: "map_of (gauges cm1) =
      (map_of (gauges cm))(name \<mapsto> NewGaugeVec name hlp (map fst labels))"
    by (simp add: update_conv')
  from c None have c2: "cm1 = cm\<lparr>gauges := gauges cm @ [(name, NewGaugeVec name hlp (map fst labels))]\<rparr>"
    by (simp add: update_fresh)
  from None r c2 m show ?thesis by (rule absent)
next
  case (Some g)
  with assms have "cm1 = cm" by (simp add: createGaugeIfNotExists_def)
  with Some show ?thesis by (rule present)
qed

lemma createGaugeIfNotExists_registered:
  assumes "createGaugeIfNotExists e name hlp labels cm = Inr cm1"
  shows "\<exists>g. map_of (gauges cm1) name = Some g"
  using assms by (cases rule: createGaugeIfNotExists_cases) simp_all

lemma observation_createGaugeIfNotExists:
  assumes "createGaugeIfNotExists e name hlp labels cm = Inr cm1"
  shows "observation cm1 n vs = observation cm n vs"
  using assms
proof (cases rule: createGaugeIfNotExists_cases)
  case (present g)
  then show ?thesis by simp
next
  case absent
  then show ?thesis by (simp add: observation_def NewGaugeVec_def)
qed

text \<open>
  Claim C1. When the registry already holds a vector under a metric name, a later call of
  \<open>createGaugeIfNotExists\<close> for that name, whatever its help text and labels, returns the
  state as it was; each of the three update functions then works on the vector that is
  already there, and writing a value keeps its name, help text and label names.
\<close>

theorem createGaugeIfNotExists_first_call_authoritative:
  assumes "map_of (gauges cm) name = Some g"
  shows "createGaugeIfNotExists e name hlp labels cm = Inr cm \<and>
         updateZoneGauge e zoneId zoneName name hlp val cm =
           With_Set name [(''zone_id'', zoneId), (''zone_name'', zoneName)] (float64 val) cm \<and>
         updateZoneGaugeByLabel e zoneId zoneName name hlp byLabel vals cm =
           range_values name byLabel
             (AList.update byLabel [] [(''zone_id'', zoneId), (''zone_name'', zoneName)]) vals cm \<and>
         updateAccountGaugeByLabel e accountId name hlp byLabel vals cm =
           range_values name byLabel
             (AList.update byLabel [] [(''account_id'', accountId)]) vals cm \<and>
         (\<forall>labels1 v cm1. With_Set name labels1 v cm = Inr cm1 \<longrightarrow>
            (\<exists>g1. map_of (gauges cm1) name = Some g1 \<and> Name g1 = Name g \<and>
                  Help g1 = Help g \<and> label_names g1 = label_names g))"
proof -
  have c: "\<And>hlp labels. createGaugeIfNotExists e name hlp labels cm = Inr cm"
    using assms by (simp add: createGaugeIfNotExists_def)
  have w: "\<forall>labels1 v cm1. With_Set name labels1 v cm = Inr cm1 \<longrightarrow>
            (\<exists>g1. map_of (gauges cm1) name = Some g1 \<and> Name g1 = Name g \<and>
                  Help g1 = Help g \<and> label_names g1 = label_names g)"
    using assms by (auto simp: With_Set_Inr_iff update_conv')
  show ?thesis
    using w by (simp add: c updateZoneGauge_def updateZoneGaugeByLabel_def
        updateAccountGaugeByLabel_def Let_def del: AList.update.simps)
qed

theorem createGaugeIfNotExists_first_call_authoritative_witness:
  "map_of (gauges demo_registered) ''cloudflare_requests_rate24h'' =
     Some (NewGaugeVec ''cloudflare_requests_rate24h''
             ''Total number of requests over the last 24h'' [''zone_id'', ''zone_name'']) \<and>
   createGaugeIfNotExists demo_env ''cloudflare_requests_rate24h'' ''another help''
     [(''account_id'', ''acct1''), (''token_name'', [])] demo_registered = Inr demo_registered"
  using createGaugeIfNotExists_first_call_authoritative
    [where cm = demo_registered and name = "''cloudflare_requests_rate24h''"
       and g = "NewGaugeVec ''cloudflare_requests_rate24h''
             ''Total number of requests over the last 24h'' [''zone_id'', ''zone_name'']"
       and e = demo_env and hlp = "''another help''"
       and labels = "[(''account_id'', ''acct1''), (''token_name'', [])]"]
  by (simp add: demo_registered_def)

lemma observation_With_Set:
  assumes "With_Set name labels v cm = Inr cm1"
  shows "\<exists>g vs. map_of (gauges cm) name = Some g \<and>
           length labels = length (label_names g) \<and> valid_values labels \<and>
           label_values (label_names g) labels = Some vs \<and>
           (\<forall>n ws. observation cm1 n ws =
                     (if n = name \<and> ws = vs then Some v else observation cm n ws))"
proof -
  from assms obtain g vs where g: "map_of (gauges cm) name = Some g"
    and l: "length labels = length (label_names g)"
    and vl: "valid_values labels"
    and lv: "label_values (label_names g) labels = Some vs"
    and cm1: "cm1 = cm\<lparr>gauges :=
                 AList.update name (g\<lparr>metrics := AList.update vs v (metrics g)\<rparr>) (gauges cm)\<rparr>"
    unfolding With_Set_Inr_iff by blast
  have "\<forall>n ws. observation cm1 n ws =
                     (if n = name \<and> ws = vs then Some v else observation cm n ws)"
    using g by (simp add: cm1 observation_def update_conv')
  with g l vl lv show ?thesis by blast
qed






lemma zone_label_names:
  "set (map fst (AList.update byLabel v [(''zone_id'', zoneId), (''zone_name'', zoneName)])) =
     {''zone_id'', ''zone_name'', byLabel}"
  by auto

text \<open>
  Claim C3. \<open>updateZoneGaugeByLabel\<close> with an empty map of values does what
  \<open>createGaugeIfNotExists\<close> does and nothing more. When the name is already registered
  the state is returned as it was. When it is not and the registry takes the new vector,
  the vector is stored under the name with the label names \<open>zone_id\<close>, \<open>zone_name\<close> and
  the breakdown label, and holds no value. In every state it returns, each vector holds
  the values it held before.
\<close>

theorem updateZoneGaugeByLabel_empty_values:
  "updateZoneGaugeByLabel e zoneId zoneName name hlp byLabel [] cm =
     createGaugeIfNotExists e name hlp
       (AList.update byLabel [] [(''zone_id'', zoneId), (''zone_name'', zoneName)]) cm \<and>
   (map_of (gauges cm) name \<noteq> None \<longrightarrow>
      updateZoneGaugeByLabel e zoneId zoneName name hlp byLabel [] cm = Inr cm) \<and>
   (map_of (gauges cm) name = None \<longrightarrow>
      (\<exists>g. Name g = name \<and> Help g = hlp \<and> metrics g = [] \<and>
           set (label_names g) = {''zone_id'', ''zone_name'', byLabel} \<and>
           updateZoneGaugeByLabel e zoneId zoneName name hlp byLabel [] cm =
             (if MustRegister_ok e g then Inr (cm\<lparr>gauges := gauges cm @ [(name, g)]\<rparr>)
              else Inl panicRegister))) \<and>
   (\<forall>cm1. updateZoneGaugeByLabel e zoneId zoneName name hlp byLabel [] cm = Inr cm1 \<longrightarrow>
      (\<exists>g. map_of (gauges cm1) name = Some g) \<and>
      (\<forall>n vs. observation cm1 n vs = observation cm n vs))"
proof -
  let ?labels = "AList.update byLabel [] [(''zone_id'', zoneId), (''zone_name'', zoneName)]"
  let ?g = "NewGaugeVec name hlp (map fst ?labels)"
  have eq: "updateZoneGaugeByLabel e zoneId zoneName name hlp byLabel [] cm =
     createGaugeIfNotExists e name hlp ?labels cm"
    by (simp add: updateZoneGaugeByLabel_def Let_def split: sum.split del: AList.update.simps)
  have present: "map_of (gauges cm) name \<noteq> None \<longrightarrow>
      createGaugeIfNotExists e name hlp ?labels cm = Inr cm"
    by (auto simp: createGaugeIfNotExists_def)
  have g: "Name ?g = name \<and> Help ?g = hlp \<and> metrics ?g = [] \<and>
           set (label_names ?g) = {''zone_id'', ''zone_name'', byLabel}"
    unfolding NewGaugeVec_def using zone_label_names[of byLabel "[]" zoneId zoneName]
    by (simp del: AList.update.simps)
  have absent: "map_of (gauges cm) name = None \<longrightarrow>
      (\<exists>g. Name g = name \<and> Help g = hlp \<and> metrics g = [] \<and>
           set (label_names g) = {''zone_id'', ''zone_name'', byLabel} \<and>
           createGaugeIfNotExists e name hlp ?labels cm =
             (if MustRegister_ok e g then Inr (cm\<lparr>gauges := gauges cm @ [(name, g)]\<rparr>)
              else Inl panicRegister))"
    using g createGaugeIfNotExists_absent[of cm name e hlp ?labels] by blast
  have frame: "\<forall>cm1. createGaugeIfNotExists e name hlp ?labels cm = Inr cm1 \<longrightarrow>
      (\<exists>g. map_of (gauges cm1) name = Some g) \<and>
      (\<forall>n vs. observation cm1 n vs = observation cm n vs)"
  proof (intro allI impI conjI)
    fix cm1 n vs
    assume c: "createGaugeIfNotExists e name hlp ?labels cm = Inr cm1"
    from c show "\<exists>g. map_of (gauges cm1) name = Some g"
      by (rule createGaugeIfNotExists_registered)
    from c show "observation cm1 n vs = observation cm n vs"
      by (rule observation_createGaugeIfNotExists)
  qed
  from present absent frame show ?thesis
    unfolding eq by (intro conjI) (rule refl)
qed

theorem updateZoneGaugeByLabel_empty_values_witness:
  "map_of (gauges demo_cm) ''cloudflare_threats_type_rate24h'' = None \<and>
   (\<exists>g. updateZoneGaugeByLabel demo_env ''id-example.com'' ''example.com''
           ''cloudflare_threats_type_rate24h''
           ''Total mitigated threats over the last 24h by type'' ''type'' [] demo_cm =
         Inr (demo_cm\<lparr>gauges := gauges demo_cm @ [(''cloudflare_threats_type_rate24h'', g)]\<rparr>) \<and>
        set (label_names g) = {''zone_id'', ''zone_name'', ''type''} \<and> metrics g = [])"
proof -
  have n: "map_of (gauges demo_cm) ''cloudflare_threats_type_rate24h'' = None"
    by (simp add: demo_cm_def newWithAPI_def)
  have r: "\<And>g. MustRegister_ok demo_env g" by (simp add: demo_env_def)
  note th = updateZoneGaugeByLabel_empty_values[of demo_env "''id-example.com''"
      "''example.com''" "''cloudflare_threats_type_rate24h''"
      "''Total mitigated threats over the last 24h by type''" "''type''" demo_cm]
  note c = th[THEN conjunct2, THEN conjunct2, THEN conjunct1, rule_format, OF n]
  from c obtain g where "metrics g = []"
    "set (label_names g) = {''zone_id'', ''zone_name'', ''type''}"
    "updateZoneGaugeByLabel demo_env ''id-example.com'' ''example.com''
           ''cloudflare_threats_type_rate24h''
           ''Total mitigated threats over the last 24h by type'' ''type'' [] demo_cm =
       (if MustRegister_ok demo_env g
        then Inr (demo_cm\<lparr>gauges := gauges demo_cm @ [(''cloudflare_threats_type_rate24h'', g)]\<rparr>)
        else Inl panicRegister)"
    by blast
  with n r show ?thesis by auto
qed

subsection \<open>Targets that fail\<close>

lemma forEach_append:
  "forEach body (xs @ ys) s =
     (case forEach body xs s of Inl p \<Rightarrow> Inl p | Inr s1 \<Rightarrow> forEach body ys s1)"
  by (induction xs arbitrary: s) (auto split: sum.splits)








subsection \<open>Label tuples and the loop over a map of values\<close>

lemma label_values_Some_iff:
  "(\<exists>vs. label_values names labels = Some vs) \<longleftrightarrow> set names \<subseteq> fst ` set labels"
proof (induction names)
  case Nil
  show ?case by simp
next
  case (Cons n ns)
  show ?case
  proof (cases "map_of labels n")
    case None
    then have "n \<notin> fst ` set labels" by (simp add: map_of_eq_None_iff)
    with None show ?thesis by simp
  next
    case (Some v)
    then have "n \<in> fst ` set labels" by (metis map_of_eq_None_iff option.distinct(1))
    with Some Cons show ?thesis by (auto split: option.splits)
  qed
qed

lemma label_values_nth:
  "label_values names labels = Some vs \<Longrightarrow>
     length vs = length names \<and> (\<forall>i < length names. map_of labels (names ! i) = Some (vs ! i))"
proof (induction names arbitrary: vs)
  case Nil
  then show ?case by simp
next
  case (Cons n ns)
  from Cons.prems obtain v ws where v: "map_of labels n = Some v"
    and ws: "label_values ns labels = Some ws" and vs: "vs = v # ws"
    by (auto split: option.splits)
  from Cons.IH[OF ws] v vs show ?case
    by (auto simp: nth_Cons split: nat.splits)
qed

lemma label_tuple_schema:
  "schema cm1 name = schema cm name \<Longrightarrow> label_tuple cm1 name labels = label_tuple cm name labels"
  by (auto simp: schema_def label_tuple_def split: option.splits)

lemma With_Set_Inr_label_tuple:
  "(\<exists>cm1. With_Set name labels v cm = Inr cm1) \<longleftrightarrow> label_tuple cm name labels \<noteq> None"
  unfolding With_Set_Inr_iff label_tuple_def by (auto split: option.splits)

lemma With_Set_effect:
  assumes "With_Set name labels v cm = Inr cm1"
  shows "\<exists>vs. label_tuple cm name labels = Some vs \<and>
           (\<forall>n ws. observation cm1 n ws =
                     (if n = name \<and> ws = vs then Some v else observation cm n ws))"
  using observation_With_Set[OF assms] by (auto simp: label_tuple_def)

lemma With_Set_observation:
  assumes "With_Set name labels v c = Inr c1"
  shows "observation c1 n ws =
           (if n = name \<and> label_tuple c name labels = Some ws then Some v
            else observation c n ws)"
proof -
  from With_Set_effect[OF assms] obtain vs where
    vs: "label_tuple c name labels = Some vs"
    and eff: "\<And>n ws. observation c1 n ws =
              (if n = name \<and> ws = vs then Some v else observation c n ws)"
    by blast
  show ?thesis unfolding eff vs by auto
qed

lemma With_Set_metrics:
  assumes "With_Set name labels v cm = Inr cm1"
    and "map_of (gauges cm) name = Some g"
  shows "\<exists>vs. label_tuple cm name labels = Some vs \<and>
           map_of (gauges cm1) name = Some (g\<lparr>metrics := AList.update vs v (metrics g)\<rparr>)"
  using assms unfolding With_Set_Inr_iff
  by (auto simp: label_tuple_def update_conv')

lemma schema_With_Set:
  assumes "With_Set name labels v cm = Inr cm1"
  shows "schema cm1 n = schema cm n"
  using assms unfolding With_Set_Inr_iff by (auto simp: schema_def update_conv')

lemma frame_With_Set:
  assumes "With_Set name labels v cm = Inr cm1"
  shows "api cm1 = api cm \<and> zones cm1 = zones cm \<and> accounts cm1 = accounts cm \<and>
         since cm1 = since cm \<and> includeAccess cm1 = includeAccess cm"
  using assms unfolding With_Set_Inr_iff by auto

lemma schema_createGaugeIfNotExists:
  assumes "createGaugeIfNotExists e name hlp labels cm = Inr cm1"
  shows "schema cm1 n =
           (if n = name \<and> schema cm n = None then Some (name, hlp, map fst labels)
            else schema cm n)"
  using assms
proof (cases rule: createGaugeIfNotExists_cases)
  case (present g)
  then show ?thesis by (auto simp: schema_def)
next
  case absent
  then show ?thesis by (simp add: schema_def NewGaugeVec_def)
qed

lemma schema_range_values:
  "range_values name byLabel labels vals cm = Inr cm1 \<Longrightarrow> schema cm1 n = schema cm n"
proof (induction vals arbitrary: labels cm)
  case Nil
  then show ?case by simp
next
  case (Cons kv vals)
  obtain key val where kv: "kv = (key, val)" by (cases kv)
  from Cons.prems kv obtain c where
    1: "With_Set name (AList.update byLabel key labels) (float64 val) cm = Inr c"
    and 2: "range_values name byLabel (AList.update byLabel key labels) vals c = Inr cm1"
    by (auto simp: Let_def split: sum.splits)
  from Cons.IH[OF 2] schema_With_Set[OF 1] show ?case by simp
qed

lemma frame_range_values:
  "range_values name byLabel labels vals cm = Inr cm1 \<Longrightarrow>
     api cm1 = api cm \<and> zones cm1 = zones cm \<and> accounts cm1 = accounts cm \<and>
     since cm1 = since cm \<and> includeAccess cm1 = includeAccess cm"
proof (induction vals arbitrary: labels cm)
  case Nil
  then show ?case by simp
next
  case (Cons kv vals)
  obtain key val where kv: "kv = (key, val)" by (cases kv)
  from Cons.prems kv obtain c where
    1: "With_Set name (AList.update byLabel key labels) (float64 val) cm = Inr c"
    and 2: "range_values name byLabel (AList.update byLabel key labels) vals c = Inr cm1"
    by (auto simp: Let_def split: sum.splits)
  from Cons.IH[OF 2] frame_With_Set[OF 1] show ?case by simp
qed

lemma range_values_frame:
  assumes "range_values name byLabel (AList.update byLabel k0 base) vals cm = Inr cm1"
    and "n \<noteq> name \<or>
         (\<forall>k \<in> fst ` set vals. label_tuple cm name (AList.update byLabel k base) \<noteq> Some ws)"
  shows "observation cm1 n ws = observation cm n ws"
  using assms
proof (induction vals arbitrary: k0 cm)
  case Nil
  then show ?case by simp
next
  case (Cons kv vals)
  obtain key val where kv: "kv = (key, val)" by (cases kv)
  from Cons.prems(1) kv obtain c where
    1: "With_Set name (AList.update byLabel key base) (float64 val) cm = Inr c"
    and 2: "range_values name byLabel (AList.update byLabel key base) vals c = Inr cm1"
    by (auto simp: Let_def split: sum.splits)
  from With_Set_effect[OF 1] obtain vs where
    vs: "label_tuple cm name (AList.update byLabel key base) = Some vs"
    and eff: "\<And>n ws. observation c n ws =
                (if n = name \<and> ws = vs then Some (float64 val) else observation cm n ws)"
    by blast
  have same: "\<And>labels. label_tuple c name labels = label_tuple cm name labels"
    by (rule label_tuple_schema) (rule schema_With_Set[OF 1])
  from Cons.prems(2) kv vs have miss: "n \<noteq> name \<or> ws \<noteq> vs" by auto
  from Cons.prems(2) kv have rest: "n \<noteq> name \<or>
      (\<forall>k \<in> fst ` set vals. label_tuple c name (AList.update byLabel k base) \<noteq> Some ws)"
    by (auto simp: same)
  from Cons.IH[OF 2 rest] have "observation cm1 n ws = observation c n ws" .
  also from miss have "\<dots> = observation cm n ws" by (auto simp: eff)
  finally show ?case .
qed

lemma range_values_total:
  assumes "\<forall>k \<in> fst ` set vals. label_tuple cm name (AList.update byLabel k base) \<noteq> None"
  shows "\<exists>cm1. range_values name byLabel (AList.update byLabel k0 base) vals cm = Inr cm1"
  using assms
proof (induction vals arbitrary: k0 cm)
  case Nil
  then show ?case by simp
next
  case (Cons kv vals)
  obtain key val where kv: "kv = (key, val)" by (cases kv)
  from Cons.prems kv have "label_tuple cm name (AList.update byLabel key base) \<noteq> None"
    by simp
  then obtain c where
    1: "With_Set name (AList.update byLabel key base) (float64 val) cm = Inr c"
    using With_Set_Inr_label_tuple by blast
  have same: "\<And>labels. label_tuple c name labels = label_tuple cm name labels"
    by (rule label_tuple_schema) (rule schema_With_Set[OF 1])
  from Cons.prems kv have
    "\<forall>k \<in> fst ` set vals. label_tuple c name (AList.update byLabel k base) \<noteq> None"
    by (simp add: same)
  from Cons.IH[OF this, of key] 1 kv show ?case
    by (simp add: Let_def)
qed

lemma range_values_hit:
  assumes "range_values name byLabel (AList.update byLabel k0 base) vals cm = Inr cm1"
    and "distinct (map fst vals)"
    and "inj_on (\<lambda>k. label_tuple cm name (AList.update byLabel k base)) (fst ` set vals)"
    and "(k, v) \<in> set vals"
  shows "\<exists>ws. label_tuple cm name (AList.update byLabel k base) = Some ws \<and>
              observation cm1 name ws = Some (float64 v)"
  using assms
proof (induction vals arbitrary: k0 cm)
  case Nil
  then show ?case by simp
next
  case (Cons kv vals)
  obtain key val where kv: "kv = (key, val)" by (cases kv)
  from Cons.prems(1) kv obtain c where
    1: "With_Set name (AList.update byLabel key base) (float64 val) cm = Inr c"
    and 2: "range_values name byLabel (AList.update byLabel key base) vals c = Inr cm1"
    by (auto simp: Let_def split: sum.splits)
  from With_Set_effect[OF 1] obtain vs where
    vs: "label_tuple cm name (AList.update byLabel key base) = Some vs"
    and eff: "\<And>n ws. observation c n ws =
                (if n = name \<and> ws = vs then Some (float64 val) else observation cm n ws)"
    by blast
  have same: "\<And>labels. label_tuple c name labels = label_tuple cm name labels"
    by (rule label_tuple_schema) (rule schema_With_Set[OF 1])
  from Cons.prems(2) kv have d: "key \<notin> fst ` set vals" "distinct (map fst vals)" by auto
  have keys: "fst ` set (kv # vals) = insert key (fst ` set vals)" using kv by simp
  note inj0 = Cons.prems(3)[unfolded keys]
  show ?case
  proof (cases "(k, v) \<in> set vals")
    case True
    from inj0 have "inj_on (\<lambda>k. label_tuple cm name (AList.update byLabel k base)) (fst ` set vals)"
      by (rule inj_on_subset) blast
    then have inj: "inj_on (\<lambda>k. label_tuple c name (AList.update byLabel k base)) (fst ` set vals)"
      by (simp only: same)
    from Cons.IH[OF 2 d(2) inj True] show ?thesis by (simp only: same)
  next
    case False
    with Cons.prems(4) kv have k: "k = key" "v = val" by auto
    have "\<forall>k1 \<in> fst ` set vals. label_tuple c name (AList.update byLabel k1 base) \<noteq> Some vs"
    proof
      fix k1 assume k1: "k1 \<in> fst ` set vals"
      show "label_tuple c name (AList.update byLabel k1 base) \<noteq> Some vs"
      proof
        assume "label_tuple c name (AList.update byLabel k1 base) = Some vs"
        with vs have eq: "label_tuple cm name (AList.update byLabel k1 base) =
            label_tuple cm name (AList.update byLabel key base)"
          by (simp only: same)
        from k1 have "k1 \<in> insert key (fst ` set vals)" "key \<in> insert key (fst ` set vals)"
          by simp_all
        from inj_onD[OF inj0 eq this] have "k1 = key" .
        with k1 d(1) show False by simp
      qed
    qed
    then have "name \<noteq> name \<or> (\<forall>k1 \<in> fst ` set vals.
        label_tuple c name (AList.update byLabel k1 base) \<noteq> Some vs)" ..
    from range_values_frame[OF 2 this]
    have "observation cm1 name vs = observation c name vs" .
    also have "\<dots> = Some (float64 val)" by (simp add: eff)
    finally show ?thesis using vs k by simp
  qed
qed

lemma range_values_tuples:
  assumes "range_values name byLabel (AList.update byLabel k0 base) vals cm = Inr cm1"
    and "k \<in> fst ` set vals"
  shows "label_tuple cm name (AList.update byLabel k base) \<noteq> None"
  using assms
proof (induction vals arbitrary: k0 cm)
  case Nil
  then show ?case by simp
next
  case (Cons kv vals)
  obtain key val where kv: "kv = (key, val)" by (cases kv)
  from Cons.prems(1) kv obtain c where
    1: "With_Set name (AList.update byLabel key base) (float64 val) cm = Inr c"
    and 2: "range_values name byLabel (AList.update byLabel key base) vals c = Inr cm1"
    by (auto simp: Let_def split: sum.splits)
  have same: "\<And>labels. label_tuple c name labels = label_tuple cm name labels"
    by (rule label_tuple_schema) (rule schema_With_Set[OF 1])
  show ?case
  proof (cases "k = key")
    case True
    from 1 have "label_tuple cm name (AList.update byLabel key base) \<noteq> None"
      using With_Set_Inr_label_tuple by blast
    with True show ?thesis by simp
  next
    case False
    with Cons.prems(2) kv have "k \<in> fst ` set vals" by auto
    from Cons.IH[OF 2 this] show ?thesis by (simp add: same)
  qed
qed

lemma range_values_length:
  assumes "range_values name byLabel (AList.update byLabel k0 base) vals cm = Inr cm1"
    and "map_of (gauges cm) name = Some g"
    and "distinct (map fst vals)"
    and "inj_on (\<lambda>k. label_tuple cm name (AList.update byLabel k base)) (fst ` set vals)"
    and "\<forall>k \<in> fst ` set vals. \<forall>ws. label_tuple cm name (AList.update byLabel k base) = Some ws
           \<longrightarrow> ws \<notin> fst ` set (metrics g)"
  shows "\<exists>g1. map_of (gauges cm1) name = Some g1 \<and>
              length (metrics g1) = length (metrics g) + length vals"
  using assms
proof (induction vals arbitrary: k0 cm g)
  case Nil
  then show ?case by simp
next
  case (Cons kv vals)
  obtain key val where kv: "kv = (key, val)" by (cases kv)
  from Cons.prems(1) kv obtain c where
    1: "With_Set name (AList.update byLabel key base) (float64 val) cm = Inr c"
    and 2: "range_values name byLabel (AList.update byLabel key base) vals c = Inr cm1"
    by (auto simp: Let_def split: sum.splits)
  have same: "\<And>labels. label_tuple c name labels = label_tuple cm name labels"
    by (rule label_tuple_schema) (rule schema_With_Set[OF 1])
  from With_Set_metrics[OF 1 Cons.prems(2)] obtain vs where
    vs: "label_tuple cm name (AList.update byLabel key base) = Some vs"
    and g1: "map_of (gauges c) name =
               Some (g\<lparr>metrics := AList.update vs (float64 val) (metrics g)\<rparr>)"
    by blast
  let ?g = "g\<lparr>metrics := AList.update vs (float64 val) (metrics g)\<rparr>"
  from Cons.prems(3) kv have d: "key \<notin> fst ` set vals" "distinct (map fst vals)" by auto
  have keys: "fst ` set (kv # vals) = insert key (fst ` set vals)" using kv by simp
  note inj0 = Cons.prems(4)[unfolded keys]
  note fresh0 = Cons.prems(5)[unfolded keys]
  from fresh0 vs have new: "vs \<notin> fst ` set (metrics g)" by blast
  then have len: "length (metrics ?g) = Suc (length (metrics g))"
    by (simp add: length_update)
  from inj0 have "inj_on (\<lambda>k. label_tuple cm name (AList.update byLabel k base)) (fst ` set vals)"
    by (rule inj_on_subset) blast
  then have inj: "inj_on (\<lambda>k. label_tuple c name (AList.update byLabel k base)) (fst ` set vals)"
    by (simp only: same)
  have fresh: "\<forall>k \<in> fst ` set vals. \<forall>ws.
      label_tuple c name (AList.update byLabel k base) = Some ws \<longrightarrow>
      ws \<notin> fst ` set (metrics ?g)"
  proof (intro ballI allI impI)
    fix k ws
    assume k: "k \<in> fst ` set vals"
      and t: "label_tuple c name (AList.update byLabel k base) = Some ws"
    from t have t0: "label_tuple cm name (AList.update byLabel k base) = Some ws"
      by (simp only: same)
    from fresh0 k t0 have old: "ws \<notin> fst ` set (metrics g)" by blast
    have "ws \<noteq> vs"
    proof
      assume "ws = vs"
      with t0 vs have eq: "label_tuple cm name (AList.update byLabel k base) =
          label_tuple cm name (AList.update byLabel key base)"
        by simp
      from k have "k \<in> insert key (fst ` set vals)" "key \<in> insert key (fst ` set vals)"
        by simp_all
      from inj_onD[OF inj0 eq this] have "k = key" .
      with k d(1) show False by simp
    qed
    with old show "ws \<notin> fst ` set (metrics ?g)"
      by (simp add: dom_update)
  qed
  from Cons.IH[OF 2 g1 d(2) inj fresh] len kv show ?case by simp
qed

lemma observation_Some_range_values:
  assumes "range_values name byLabel labels vals cm = Inr cm1"
    and "observation cm n ws \<noteq> None"
  shows "observation cm1 n ws \<noteq> None"
  using assms
proof (induction vals arbitrary: labels cm)
  case Nil
  then show ?case by simp
next
  case (Cons kv vals)
  obtain key val where kv: "kv = (key, val)" by (cases kv)
  from Cons.prems(1) kv obtain c where
    1: "With_Set name (AList.update byLabel key labels) (float64 val) cm = Inr c"
    and 2: "range_values name byLabel (AList.update byLabel key labels) vals c = Inr cm1"
    by (auto simp: Let_def split: sum.splits)
  from With_Set_effect[OF 1] Cons.prems(2) have "observation c n ws \<noteq> None" by auto
  from Cons.IH[OF 2 this] show ?case .
qed

lemma label_tuple_keys:
  assumes "label_tuple cm name labels = Some ws"
    and "map_of (gauges cm) name = Some g"
    and "distinct (label_names g)"
    and "distinct (map fst labels)"
  shows "set (label_names g) = fst ` set labels"
proof -
  from assms(1,2) have len: "length labels = length (label_names g)"
    and lv: "label_values (label_names g) labels = Some ws"
    by (auto simp: label_tuple_def split: if_splits)
  from lv have sub: "set (label_names g) \<subseteq> fst ` set labels"
    using label_values_Some_iff by blast
  have "card (set (label_names g)) = length (label_names g)"
    using assms(3) by (rule distinct_card)
  moreover have "card (fst ` set labels) = length labels"
    using distinct_card[OF assms(4)] by simp
  ultimately have "card (set (label_names g)) = card (fst ` set labels)"
    using len by simp
  with sub show ?thesis by (simp add: card_subset_eq)
qed

lemma label_tuple_fits:
  assumes "map_of (gauges cm) name = Some g"
    and "distinct (label_names g)"
    and "set (label_names g) = fst ` set labels"
    and "distinct (map fst labels)"
    and "valid_values labels"
  shows "label_tuple cm name labels \<noteq> None"
proof -
  have "card (set (label_names g)) = length (label_names g)"
    using assms(2) by (rule distinct_card)
  moreover have "card (fst ` set labels) = length labels"
    using distinct_card[OF assms(4)] by simp
  ultimately have len: "length labels = length (label_names g)"
    using assms(3) by simp
  from assms(3) obtain ws where "label_values (label_names g) labels = Some ws"
    using label_values_Some_iff[of "label_names g" labels] by auto
  with len assms(1,5) show ?thesis by (simp add: label_tuple_def)
qed

lemma label_tuple_inj:
  assumes "map_of (gauges cm) name = Some g"
    and "byLabel \<in> set (label_names g)"
    and "label_tuple cm name (AList.update byLabel k base) = Some ws"
    and "label_tuple cm name (AList.update byLabel k1 base) = Some ws"
  shows "k = k1"
proof -
  from assms(1,3) have a: "label_values (label_names g) (AList.update byLabel k base) = Some ws"
    by (auto simp: label_tuple_def split: if_splits)
  from assms(1,4) have b: "label_values (label_names g) (AList.update byLabel k1 base) = Some ws"
    by (auto simp: label_tuple_def split: if_splits)
  from assms(2) obtain i where i: "i < length (label_names g)" "label_names g ! i = byLabel"
    by (auto simp: in_set_conv_nth)
  from label_values_nth[OF a] i have "map_of (AList.update byLabel k base) byLabel = Some (ws ! i)"
    by auto
  moreover from label_values_nth[OF b] i
  have "map_of (AList.update byLabel k1 base) byLabel = Some (ws ! i)"
    by auto
  ultimately show ?thesis by (simp add: update_conv')
qed

lemma by_label_spec:
  assumes create: "createGaugeIfNotExists e name hlp (AList.update byLabel [] base) cm = Inr c"
    and loop: "range_values name byLabel (AList.update byLabel [] base) vals c = Inr cm1"
    and keys: "distinct (map fst vals)"
    and base: "distinct (map fst base)"
    and wf: "\<forall>g. map_of (gauges cm) name = Some g \<longrightarrow> distinct (label_names g)"
  shows "(\<forall>(k, v) \<in> set vals.
            gauge_value cm1 name (AList.update byLabel k base) = Some (float64 v)) \<and>
         inj_on (\<lambda>k. label_tuple cm1 name (AList.update byLabel k base)) (fst ` set vals) \<and>
         (\<forall>n ws. n \<noteq> name \<or>
              (\<forall>k \<in> fst ` set vals.
                 label_tuple cm1 name (AList.update byLabel k base) \<noteq> Some ws) \<longrightarrow>
              observation cm1 n ws = observation cm n ws) \<and>
         (map_of (gauges cm) name = None \<longrightarrow>
            (\<exists>g. map_of (gauges cm1) name = Some g \<and> length (metrics g) = length vals))"
proof -
  let ?L = "\<lambda>k. AList.update byLabel k base"
  from createGaugeIfNotExists_registered[OF create]
  obtain g where g: "map_of (gauges c) name = Some g" ..
  have dg: "distinct (label_names g)"
    using create
  proof (cases rule: createGaugeIfNotExists_cases)
    case (present g0)
    with g wf show ?thesis by auto
  next
    case absent
    with g have "g = NewGaugeVec name hlp (map fst (?L []))" by simp
    then show ?thesis
      using distinct_update[OF base, of byLabel "[]"] by (simp add: NewGaugeVec_def)
  qed
  have fresh: "map_of (gauges cm) name = None \<Longrightarrow> metrics g = []"
    using create
  proof (cases rule: createGaugeIfNotExists_cases)
    case (present g0)
    assume "map_of (gauges cm) name = None"
    with present show ?thesis by simp
  next
    case absent
    with g have "g = NewGaugeVec name hlp (map fst (?L []))" by simp
    then show ?thesis by (simp add: NewGaugeVec_def)
  qed
  have same: "\<And>labels. label_tuple cm1 name labels = label_tuple c name labels"
    by (rule label_tuple_schema) (rule schema_range_values[OF loop])
  have some: "\<And>k. k \<in> fst ` set vals \<Longrightarrow> label_tuple c name (?L k) \<noteq> None"
    by (rule range_values_tuples[OF loop])
  have dL: "\<And>k. distinct (map fst (?L k))"
    by (rule distinct_update[OF base])
  have by_in: "\<And>k. k \<in> fst ` set vals \<Longrightarrow> byLabel \<in> set (label_names g)"
  proof -
    fix k assume "k \<in> fst ` set vals"
    from some[OF this] obtain ws where "label_tuple c name (?L k) = Some ws" by blast
    from label_tuple_keys[OF this g dg dL]
    show "byLabel \<in> set (label_names g)" by (simp add: dom_update)
  qed
  have inj: "inj_on (\<lambda>k. label_tuple c name (?L k)) (fst ` set vals)"
  proof (rule inj_onI)
    fix k k1
    assume k: "k \<in> fst ` set vals" and k1: "k1 \<in> fst ` set vals"
      and eq: "label_tuple c name (?L k) = label_tuple c name (?L k1)"
    from some[OF k] obtain ws where ws: "label_tuple c name (?L k) = Some ws" by blast
    with eq have ws1: "label_tuple c name (?L k1) = Some ws" by simp
    from label_tuple_inj[OF g by_in[OF k] ws ws1] show "k = k1" .
  qed
  have 1: "\<forall>(k, v) \<in> set vals. gauge_value cm1 name (?L k) = Some (float64 v)"
  proof (intro ballI, clarify)
    fix k v assume "(k, v) \<in> set vals"
    from range_values_hit[OF loop keys inj this]
    obtain ws where "label_tuple c name (?L k) = Some ws"
      "observation cm1 name ws = Some (float64 v)"
      by blast
    then show "gauge_value cm1 name (?L k) = Some (float64 v)"
      by (simp add: gauge_value_def same)
  qed
  have 2: "inj_on (\<lambda>k. label_tuple cm1 name (?L k)) (fst ` set vals)"
    using inj by (simp only: same)
  have 3: "\<forall>n ws. n \<noteq> name \<or>
              (\<forall>k \<in> fst ` set vals. label_tuple cm1 name (?L k) \<noteq> Some ws) \<longrightarrow>
              observation cm1 n ws = observation cm n ws"
  proof (intro allI impI)
    fix n ws
    assume "n \<noteq> name \<or> (\<forall>k \<in> fst ` set vals. label_tuple cm1 name (?L k) \<noteq> Some ws)"
    then have "n \<noteq> name \<or> (\<forall>k \<in> fst ` set vals. label_tuple c name (?L k) \<noteq> Some ws)"
      by (simp only: same)
    from range_values_frame[OF loop this]
    have "observation cm1 n ws = observation c n ws" .
    also have "\<dots> = observation cm n ws"
      by (rule observation_createGaugeIfNotExists[OF create])
    finally show "observation cm1 n ws = observation cm n ws" .
  qed
  have 4: "map_of (gauges cm) name = None \<longrightarrow>
            (\<exists>g. map_of (gauges cm1) name = Some g \<and> length (metrics g) = length vals)"
  proof
    assume "map_of (gauges cm) name = None"
    from fresh[OF this] have m: "metrics g = []" .
    then have "\<forall>k \<in> fst ` set vals. \<forall>ws. label_tuple c name (?L k) = Some ws
           \<longrightarrow> ws \<notin> fst ` set (metrics g)"
      by simp
    from range_values_length[OF loop g keys inj this] m
    show "\<exists>g. map_of (gauges cm1) name = Some g \<and> length (metrics g) = length vals"
      by simp
  qed
  from 1 2 3 4 show ?thesis by (intro conjI)
qed

text \<open>
  Claim C4. When \<open>updateZoneGaugeByLabel\<close> returns, every entry of the map of values
  reads back from the vector, under the label set made of \<open>zone_id\<close>, \<open>zone_name\<close> and
  the breakdown label set to the entry's key, as the entry's value converted to
  \<open>float64\<close>; different keys are held under different tuples of label values; no other
  observation of any vector has changed; and a vector that was not registered before
  holds as many observations as the map has entries. The map has distinct keys, as a Go
  map has, and no vector registered before names a label twice.
\<close>

theorem updateZoneGaugeByLabel_one_observation_per_entry:
  assumes "distinct (map fst vals)"
    and "\<forall>g. map_of (gauges cm) name = Some g \<longrightarrow> distinct (label_names g)"
    and "updateZoneGaugeByLabel e zoneId zoneName name hlp byLabel vals cm = Inr cm1"
  shows "(\<forall>(k, v) \<in> set vals.
            gauge_value cm1 name
              (AList.update byLabel k [(''zone_id'', zoneId), (''zone_name'', zoneName)]) =
            Some (float64 v)) \<and>
         inj_on (\<lambda>k. label_tuple cm1 name
                      (AList.update byLabel k [(''zone_id'', zoneId), (''zone_name'', zoneName)]))
           (fst ` set vals) \<and>
         (\<forall>n ws. n \<noteq> name \<or>
              (\<forall>k \<in> fst ` set vals.
                 label_tuple cm1 name
                   (AList.update byLabel k [(''zone_id'', zoneId), (''zone_name'', zoneName)]) \<noteq>
                 Some ws) \<longrightarrow>
              observation cm1 n ws = observation cm n ws) \<and>
         (map_of (gauges cm) name = None \<longrightarrow>
            (\<exists>g. map_of (gauges cm1) name = Some g \<and> length (metrics g) = length vals))"
proof -
  let ?base = "[(''zone_id'', zoneId), (''zone_name'', zoneName)]"
  from assms(3) obtain c where
    create: "createGaugeIfNotExists e name hlp (AList.update byLabel [] ?base) cm = Inr c"
    and loop: "range_values name byLabel (AList.update byLabel [] ?base) vals c = Inr cm1"
    by (auto simp: updateZoneGaugeByLabel_def Let_def split: sum.splits
        simp del: AList.update.simps)
  have base: "distinct (map fst ?base)" by simp
  from by_label_spec[OF create loop assms(1) base assms(2)] show ?thesis .
qed

theorem updateZoneGaugeByLabel_one_observation_per_entry_witness:
  "distinct (map fst [(''US'', 500 :: int), (''DE'', 200)]) \<and>
   updateZoneGaugeByLabel demo_env ''id-example.com'' ''example.com''
     ''cloudflare_requests_country_rate24h''
     ''Total number of requests over the last 24h by request country'' ''country''
     [(''US'', 500), (''DE'', 200)] demo_cm = Inr demo_country \<and>
   gauge_value demo_country ''cloudflare_requests_country_rate24h''
     [(''zone_id'', ''id-example.com''), (''zone_name'', ''example.com''), (''country'', ''US'')] =
     Some 500 \<and>
   gauge_value demo_country ''cloudflare_requests_country_rate24h''
     [(''zone_id'', ''id-example.com''), (''zone_name'', ''example.com''), (''country'', ''DE'')] =
     Some 200 \<and>
   (\<exists>g. map_of (gauges demo_country) ''cloudflare_requests_country_rate24h'' = Some g \<and>
        length (metrics g) = 2)"
proof -
  have h1: "distinct (map fst [(''US'', 500 :: int), (''DE'', 200)])" by simp
  have n: "map_of (gauges demo_cm) ''cloudflare_requests_country_rate24h'' = None"
    by (simp add: demo_cm_def newWithAPI_def)
  then have h2: "\<forall>g. map_of (gauges demo_cm) ''cloudflare_requests_country_rate24h'' = Some g
      \<longrightarrow> distinct (label_names g)"
    by simp
  have h3: "updateZoneGaugeByLabel demo_env ''id-example.com'' ''example.com''
     ''cloudflare_requests_country_rate24h''
     ''Total number of requests over the last 24h by request country'' ''country''
     [(''US'', 500), (''DE'', 200)] demo_cm = Inr demo_country"
    by (simp add: updateZoneGaugeByLabel_def createGaugeIfNotExists_def With_Set_def With_def
        Set_gauge_def NewGaugeVec_def Let_def demo_cm_def demo_country_def demo_env_def
        newWithAPI_def float64_500 float64_200)
  note th = updateZoneGaugeByLabel_one_observation_per_entry[OF h1 h2 h3]
  from th[THEN conjunct1] have
    "gauge_value demo_country ''cloudflare_requests_country_rate24h''
     [(''zone_id'', ''id-example.com''), (''zone_name'', ''example.com''), (''country'', ''US'')] =
     Some 500"
    "gauge_value demo_country ''cloudflare_requests_country_rate24h''
     [(''zone_id'', ''id-example.com''), (''zone_name'', ''example.com''), (''country'', ''DE'')] =
     Some 200"
    by (simp_all add: float64_500 float64_200)
  moreover from th[THEN conjunct2, THEN conjunct2, THEN conjunct2] n
  have "\<exists>g. map_of (gauges demo_country) ''cloudflare_requests_country_rate24h'' = Some g \<and>
        length (metrics g) = 2"
    by (auto simp: numeral_2_eq_2)
  ultimately show ?thesis using h1 h3 by blast
qed

subsection \<open>An update as a sequence of operations\<close>

lemma frame_createGaugeIfNotExists:
  assumes "createGaugeIfNotExists e name hlp labels cm = Inr cm1"
  shows "api cm1 = api cm \<and> zones cm1 = zones cm \<and> accounts cm1 = accounts cm \<and>
         since cm1 = since cm \<and> includeAccess cm1 = includeAccess cm"
  using assms
proof (cases rule: createGaugeIfNotExists_cases)
  case (present g)
  then show ?thesis by simp
next
  case absent
  then show ?thesis by simp
qed

lemma frame_run_gauge_operation:
  assumes "run_gauge_operation e g cm = Inr cm1"
  shows "api cm1 = api cm \<and> zones cm1 = zones cm \<and> accounts cm1 = accounts cm \<and>
         since cm1 = since cm \<and> includeAccess cm1 = includeAccess cm"
proof (cases g)
  case (CreateGaugeIfNotExists name hlp labels)
  with assms show ?thesis by (simp add: frame_createGaugeIfNotExists)
next
  case g: (UpdateZoneGauge zoneId zoneName name hlp val)
  let ?labels = "[(''zone_id'', zoneId), (''zone_name'', zoneName)]"
  from assms g obtain c where c: "createGaugeIfNotExists e name hlp ?labels cm = Inr c"
    and w: "With_Set name ?labels (float64 val) c = Inr cm1"
    by (auto simp: updateZoneGauge_def Let_def split: sum.splits)
  from frame_createGaugeIfNotExists[OF c] frame_With_Set[OF w] show ?thesis by simp
next
  case g: (UpdateZoneGaugeByLabel zoneId zoneName name hlp byLabel vals)
  let ?base = "[(''zone_id'', zoneId), (''zone_name'', zoneName)]"
  from assms g obtain c where
    c: "createGaugeIfNotExists e name hlp (AList.update byLabel [] ?base) cm = Inr c"
    and loop: "range_values name byLabel (AList.update byLabel [] ?base) vals c = Inr cm1"
    by (auto simp: updateZoneGaugeByLabel_def Let_def split: sum.splits
        simp del: AList.update.simps)
  from frame_createGaugeIfNotExists[OF c] frame_range_values[OF loop] show ?thesis by simp
next
  case g: (UpdateAccountGaugeByLabel accountId name hlp byLabel vals)
  let ?base = "[(''account_id'', accountId)]"
  from assms g obtain c where
    c: "createGaugeIfNotExists e name hlp (AList.update byLabel [] ?base) cm = Inr c"
    and loop: "range_values name byLabel (AList.update byLabel [] ?base) vals c = Inr cm1"
    by (auto simp: updateAccountGaugeByLabel_def Let_def split: sum.splits
        simp del: AList.update.simps)
  from frame_createGaugeIfNotExists[OF c] frame_range_values[OF loop] show ?thesis by simp
qed







lemma seqP_cong_inv:
  assumes "list_all2 (\<lambda>f g. \<forall>c. I c \<longrightarrow> f c = g c \<and> (\<forall>c1. g c = Inr c1 \<longrightarrow> I c1)) fs gs"
    and "I c"
  shows "seqP fs c = seqP gs c"
  using assms
proof (induction arbitrary: c rule: list_all2_induct)
  case Nil
  then show ?case by simp
next
  case (Cons f fs g gs)
  from Cons.hyps(1) Cons.prems have fg: "f c = g c" by simp
  show ?case
  proof (cases "g c")
    case (Inl p)
    with fg show ?thesis by simp
  next
    case (Inr c1)
    with Cons.hyps(1) Cons.prems have "I c1" by simp
    from Cons.IH[OF this] fg Inr show ?thesis by simp
  qed
qed

lemma gauge_step:
  assumes "\<And>c. since c = s \<Longrightarrow> f c = run_gauge_operation e g c"
  shows "\<forall>c. since c = s \<longrightarrow>
           f c = run_gauge_operation e g c \<and>
           (\<forall>c1. run_gauge_operation e g c = Inr c1 \<longrightarrow> since c1 = s)"
  using assms frame_run_gauge_operation by metis

lemma updateZone_gauges_operations:
  "updateZone_gauges e zoneId zoneName d cm =
     seqP (map (run_gauge_operation e) (zone_operations zoneId zoneName (since cm) d)) cm"
  unfolding updateZone_gauges_def zone_operations_def list.map
  apply (rule seqP_cong_inv[where I = "\<lambda>c. since c = since cm"])
   apply (simp only: list_all2_Cons list_all2_Nil simp_thms list.inject ex_simps)
   apply (intro conjI exI)
                      apply (rule gauge_step, simp)+
  apply (rule refl)
  done

lemma updateAccount_operation:
  assumes "updateAccount e accountId (w, cm) = Inr (w1, cm1)"
  shows "cm1 = cm \<and> writes e (OpUpdateAccount accountId) (w, cm) = [] \<or>
         (\<exists>m. run_gauge_operation e (account_operation accountId m) cm = Inr cm1 \<and>
              writes e (OpUpdateAccount accountId) (w, cm) =
                targets (account_operation accountId m))"
proof -
  obtain r wa where f: "AccessServiceTokens e (api cm) accountId w = (r, wa)"
    by (cases "AccessServiceTokens e (api cm) accountId w")
  show ?thesis
  proof (cases r)
    case (Inl err)
    with assms f show ?thesis by simp
  next
    case (Inr tokens)
    with assms f obtain m where m: "tokenExpirations tokens [] = Inr m"
      and u: "updateAccountGaugeByLabel e accountId ''access_service_token_expiration''
                ''The current unix timestamp at which a service token expires''
                ''token_name'' m cm = Inr cm1"
      by (auto split: sum.splits)
    from u have "run_gauge_operation e (account_operation accountId m) cm = Inr cm1"
      by (simp add: account_operation_def)
    moreover from f Inr m have "writes e (OpUpdateAccount accountId) (w, cm) =
        targets (account_operation accountId m)"
      by simp
    ultimately show ?thesis by blast
  qed
qed

lemma updateZone_operations:
  assumes "updateZone e zoneName (w, cm) = Inr (w1, cm1)"
  shows "cm1 = cm \<and> writes e (OpUpdateZone zoneName) (w, cm) = [] \<or>
         (\<exists>zoneId d.
            seqP (map (run_gauge_operation e) (zone_operations zoneId zoneName (since cm) d)) cm =
              Inr cm1 \<and>
            writes e (OpUpdateZone zoneName) (w, cm) =
              concat (map targets (zone_operations zoneId zoneName (since cm) d)))"
proof -
  obtain r wa where f: "ZoneIDByName e (api cm) zoneName w = (r, wa)"
    by (cases "ZoneIDByName e (api cm) zoneName w")
  show ?thesis
  proof (cases r)
    case (Inl err)
    with assms f show ?thesis by simp
  next
    case zid: (Inr zoneId)
    show ?thesis
    proof (cases "ParseDuration e (''-'' @ since cm)")
      case (Inl err)
      with assms f zid show ?thesis by (simp add: Let_def)
    next
      case dur: (Inr since_d)
      obtain r2 wb where
        a: "ZoneAnalyticsDashboard e (api cm) zoneId (Now e wa + since_d) False wa = (r2, wb)"
        by (cases "ZoneAnalyticsDashboard e (api cm) zoneId (Now e wa + since_d) False wa")
      show ?thesis
      proof (cases r2)
        case (Inl err)
        with assms f zid dur a show ?thesis by (simp add: Let_def)
      next
        case (Inr d)
        with assms f zid dur a have "updateZone_gauges e zoneId zoneName d cm = Inr cm1"
          by (auto simp: Let_def split: sum.splits)
        then have "seqP (map (run_gauge_operation e)
            (zone_operations zoneId zoneName (since cm) d)) cm = Inr cm1"
          by (simp only: updateZone_gauges_operations)
        moreover from f zid dur a Inr have "writes e (OpUpdateZone zoneName) (w, cm) =
            concat (map targets (zone_operations zoneId zoneName (since cm) d))"
          by simp
        ultimately show ?thesis by blast
      qed
    qed
  qed
qed

lemma forEach_OpUpdateAccount:
  "forEach (run_operation e) (map OpUpdateAccount xs) s = forEach (updateAccount e) xs s"
  by (induction xs arbitrary: s) (auto split: sum.splits)

lemma forEach_OpUpdateZone:
  "forEach (run_operation e) (map OpUpdateZone xs) s = forEach (updateZone e) xs s"
  by (induction xs arbitrary: s) (auto split: sum.splits)

lemma forEach_frame:
  assumes "\<And>x w cm w1 cm1. body x (w, cm) = Inr (w1, cm1) \<Longrightarrow> P cm \<Longrightarrow> P cm1"
    and "forEach body xs (w, cm) = Inr (w1, cm1)"
    and "P cm"
  shows "P cm1"
  using assms(2,3)
proof (induction xs arbitrary: w cm)
  case Nil
  then show ?case by simp
next
  case (Cons x xs)
  from Cons.prems(1) obtain w2 cm2 where b: "body x (w, cm) = Inr (w2, cm2)"
    and r: "forEach body xs (w2, cm2) = Inr (w1, cm1)"
    by (auto split: sum.splits)
  from assms(1)[OF b Cons.prems(2)] have "P cm2" .
  from Cons.IH[OF r this] show ?case .
qed

lemma frame_updateAccount:
  assumes "updateAccount e accountId (w, cm) = Inr (w1, cm1)"
  shows "api cm1 = api cm \<and> zones cm1 = zones cm \<and> accounts cm1 = accounts cm \<and>
         since cm1 = since cm \<and> includeAccess cm1 = includeAccess cm"
  using updateAccount_operation[OF assms] frame_run_gauge_operation by blast

lemma update_is_update_operations:
  "update e (w, cm) = forEach (run_operation e) (update_operations cm) (w, cm)"
proof (cases "includeAccess cm")
  case False
  then show ?thesis by (simp add: update_operations_def forEach_OpUpdateZone)
next
  case True
  show ?thesis
  proof (cases "forEach (updateAccount e) (accounts cm) (w, cm)")
    case (Inl p)
    with True show ?thesis
      by (simp add: update_operations_def forEach_append forEach_OpUpdateAccount)
  next
    case (Inr s1)
    obtain w1 cm1 where s1: "s1 = (w1, cm1)" by (cases s1)
    from Inr s1 have f: "forEach (updateAccount e) (accounts cm) (w, cm) = Inr (w1, cm1)"
      by simp
    have "zones cm1 = zones cm"
      by (rule forEach_frame[where P = "\<lambda>c. zones c = zones cm", OF _ f])
         (simp_all add: frame_updateAccount)
    with True f show ?thesis
      by (simp add: update_operations_def forEach_append forEach_OpUpdateAccount
          forEach_OpUpdateZone)
  qed
qed

subsection \<open>Nothing is removed\<close>

lemma keeps_refl: "keeps cm cm"
  by (simp add: keeps_def)

lemma keeps_trans: "keeps cm cm1 \<Longrightarrow> keeps cm1 cm2 \<Longrightarrow> keeps cm cm2"
  unfolding keeps_def by metis

lemma keeps_With_Set:
  assumes "With_Set name labels v cm = Inr cm1"
  shows "keeps cm cm1"
proof -
  from With_Set_effect[OF assms] have "\<And>n ws. observation cm n ws \<noteq> None \<Longrightarrow>
      observation cm1 n ws \<noteq> None"
    by auto
  with schema_With_Set[OF assms] show ?thesis by (simp add: keeps_def)
qed

lemma keeps_createGaugeIfNotExists:
  assumes "createGaugeIfNotExists e name hlp labels cm = Inr cm1"
  shows "keeps cm cm1"
  using observation_createGaugeIfNotExists[OF assms] schema_createGaugeIfNotExists[OF assms]
  by (simp add: keeps_def)

lemma keeps_range_values:
  assumes "range_values name byLabel labels vals cm = Inr cm1"
  shows "keeps cm cm1"
  using observation_Some_range_values[OF assms] schema_range_values[OF assms]
  by (simp add: keeps_def)

lemma keeps_updateZoneGauge:
  assumes "updateZoneGauge e zoneId zoneName name hlp val cm = Inr cm1"
  shows "keeps cm cm1"
proof -
  from assms obtain c where
    "createGaugeIfNotExists e name hlp [(''zone_id'', zoneId), (''zone_name'', zoneName)] cm = Inr c"
    "With_Set name [(''zone_id'', zoneId), (''zone_name'', zoneName)] (float64 val) c = Inr cm1"
    by (auto simp: updateZoneGauge_def Let_def split: sum.splits)
  then show ?thesis
    using keeps_createGaugeIfNotExists keeps_With_Set keeps_trans by blast
qed

lemma keeps_updateZoneGaugeByLabel:
  assumes "updateZoneGaugeByLabel e zoneId zoneName name hlp byLabel vals cm = Inr cm1"
  shows "keeps cm cm1"
proof -
  let ?labels = "AList.update byLabel [] [(''zone_id'', zoneId), (''zone_name'', zoneName)]"
  from assms obtain c where
    "createGaugeIfNotExists e name hlp ?labels cm = Inr c"
    "range_values name byLabel ?labels vals c = Inr cm1"
    by (auto simp: updateZoneGaugeByLabel_def Let_def split: sum.splits
        simp del: AList.update.simps)
  then show ?thesis
    using keeps_createGaugeIfNotExists keeps_range_values keeps_trans by blast
qed

lemma keeps_updateAccountGaugeByLabel:
  assumes "updateAccountGaugeByLabel e accountId name hlp byLabel vals cm = Inr cm1"
  shows "keeps cm cm1"
proof -
  let ?labels = "AList.update byLabel [] [(''account_id'', accountId)]"
  from assms obtain c where
    "createGaugeIfNotExists e name hlp ?labels cm = Inr c"
    "range_values name byLabel ?labels vals c = Inr cm1"
    by (auto simp: updateAccountGaugeByLabel_def Let_def split: sum.splits
        simp del: AList.update.simps)
  then show ?thesis
    using keeps_createGaugeIfNotExists keeps_range_values keeps_trans by blast
qed

lemma seqP_keeps:
  assumes "\<forall>f \<in> set fs. \<forall>s s1. f s = Inr s1 \<longrightarrow> keeps s s1"
    and "seqP fs s = Inr s1"
  shows "keeps s s1"
  using assms
proof (induction fs arbitrary: s)
  case Nil
  then show ?case by (simp add: keeps_refl)
next
  case (Cons f fs)
  from Cons.prems(2) obtain c where f: "f s = Inr c" and r: "seqP fs c = Inr s1"
    by (auto split: sum.splits)
  from Cons.prems(1) f have a: "keeps s c" by simp
  from Cons.prems(1) have "\<forall>f \<in> set fs. \<forall>s s1. f s = Inr s1 \<longrightarrow> keeps s s1" by simp
  from Cons.IH[OF this r] have "keeps c s1" .
  with a show ?case by (rule keeps_trans)
qed

lemma keeps_updateZone_gauges:
  assumes "updateZone_gauges e zoneId zoneName d cm = Inr cm1"
  shows "keeps cm cm1"
  using assms unfolding updateZone_gauges_def
  by (rule seqP_keeps[rotated])
     (auto intro: keeps_updateZoneGauge keeps_updateZoneGaugeByLabel)

lemma keeps_updateZone:
  assumes "updateZone e zoneName (w, cm) = Inr (w1, cm1)"
  shows "keeps cm cm1"
  using assms
  by (auto simp: Let_def keeps_refl split: prod.splits sum.splits
      intro: keeps_updateZone_gauges)

lemma keeps_updateAccount:
  assumes "updateAccount e accountId (w, cm) = Inr (w1, cm1)"
  shows "keeps cm cm1"
  using assms
  by (auto simp: keeps_refl split: prod.splits sum.splits
      intro: keeps_updateAccountGaugeByLabel)

lemma forEach_keeps:
  assumes "\<And>x w cm w1 cm1. body x (w, cm) = Inr (w1, cm1) \<Longrightarrow> keeps cm cm1"
    and "forEach body xs (w, cm) = Inr (w1, cm1)"
  shows "keeps cm cm1"
  using assms(2)
proof (induction xs arbitrary: w cm)
  case Nil
  then show ?case by (simp add: keeps_refl)
next
  case (Cons x xs)
  from Cons.prems obtain w2 cm2 where b: "body x (w, cm) = Inr (w2, cm2)"
    and r: "forEach body xs (w2, cm2) = Inr (w1, cm1)"
    by (auto split: sum.splits)
  from assms(1)[OF b] Cons.IH[OF r] show ?case by (rule keeps_trans)
qed

lemma keeps_lift_cm:
  assumes "\<And>cm cm1. f cm = Inr cm1 \<Longrightarrow> keeps cm cm1"
    and "lift_cm f (w, cm) = Inr (w1, cm1)"
  shows "keeps cm cm1"
  using assms by (auto simp: lift_cm_def split: sum.splits)

lemma keeps_run_gauge_operation:
  assumes "run_gauge_operation e g cm = Inr cm1"
  shows "keeps cm cm1"
proof (cases g)
  case (CreateGaugeIfNotExists name hlp labels)
  with assms show ?thesis by (auto intro: keeps_createGaugeIfNotExists)
next
  case (UpdateZoneGauge zoneId zoneName name hlp val)
  with assms show ?thesis by (auto intro: keeps_updateZoneGauge)
next
  case (UpdateZoneGaugeByLabel zoneId zoneName name hlp byLabel vals)
  with assms show ?thesis by (auto intro: keeps_updateZoneGaugeByLabel)
next
  case (UpdateAccountGaugeByLabel accountId name hlp byLabel vals)
  with assms show ?thesis by (auto intro: keeps_updateAccountGaugeByLabel)
qed

lemma keeps_run_operation:
  assumes "run_operation e op (w, cm) = Inr (w1, cm1)"
  shows "keeps cm cm1"
proof (cases op)
  case (OpGauge g)
  with assms show ?thesis
    by (auto elim: keeps_lift_cm[rotated] intro: keeps_run_gauge_operation)
next
  case (OpUpdateAccount accountId)
  with assms show ?thesis by (auto intro: keeps_updateAccount)
next
  case (OpUpdateZone zoneName)
  with assms show ?thesis by (auto intro: keeps_updateZone)
qed

lemma observation_schema: "observation cm n ws = Some v \<Longrightarrow> schema cm n \<noteq> None"
  by (auto simp: observation_def schema_def split: option.splits)

lemma keeps_label_tuple:
  assumes "keeps cm cm1" and "schema cm n \<noteq> None"
  shows "label_tuple cm1 n labels = label_tuple cm n labels"
  using assms by (intro label_tuple_schema) (simp add: keeps_def)

lemma overwrites_Nil [simp]: "overwrites cm n ws [] = False"
  by (simp add: overwrites_def)

lemma overwrites_Cons:
  "overwrites cm n ws ((n1, labels) # T) =
     ((n1 = n \<and> label_tuple cm n labels = Some ws) \<or> overwrites cm n ws T)"
  by (simp add: overwrites_def)

lemma overwrites_append:
  "overwrites cm n ws (T @ T1) = (overwrites cm n ws T \<or> overwrites cm n ws T1)"
  by (simp add: overwrites_def)

lemma overwrites_keeps:
  assumes "keeps cm cm1" and "schema cm n \<noteq> None"
  shows "overwrites cm1 n ws T = overwrites cm n ws T"
  by (simp add: overwrites_def keeps_label_tuple[OF assms])

lemma overwrites_by_label:
  "overwrites cm n ws (map (\<lambda>(key, val). (name, AList.update byLabel key base)) vals) =
     (n = name \<and> (\<exists>k \<in> fst ` set vals. label_tuple cm name (AList.update byLabel k base) = Some ws))"
  by (induction vals) (auto simp: overwrites_def)

lemma updateZoneGauge_frame:
  assumes run: "updateZoneGauge e zoneId zoneName name hlp val cm = Inr cm1"
    and obs: "observation cm n ws = Some v"
    and un: "\<not> overwrites cm n ws [(name, [(''zone_id'', zoneId), (''zone_name'', zoneName)])]"
  shows "observation cm1 n ws = Some v"
proof -
  let ?labels = "[(''zone_id'', zoneId), (''zone_name'', zoneName)]"
  from run obtain c where c: "createGaugeIfNotExists e name hlp ?labels cm = Inr c"
    and w: "With_Set name ?labels (float64 val) c = Inr cm1"
    by (auto simp: updateZoneGauge_def Let_def split: sum.splits)
  from observation_createGaugeIfNotExists[OF c] obs have oc: "observation c n ws = Some v"
    by simp
  from keeps_label_tuple[OF keeps_createGaugeIfNotExists[OF c] observation_schema[OF obs]]
  have lt: "label_tuple c n ?labels = label_tuple cm n ?labels" .
  from un have "\<not> (name = n \<and> label_tuple cm n ?labels = Some ws)"
    by (simp only: overwrites_Cons overwrites_Nil simp_thms)
  with lt have "\<not> (n = name \<and> label_tuple c name ?labels = Some ws)" by auto
  with With_Set_observation[OF w, of n ws] oc show ?thesis by (simp only: if_False)
qed

lemma by_label_frame:
  assumes c: "createGaugeIfNotExists e name hlp (AList.update byLabel [] base) cm = Inr c"
    and loop: "range_values name byLabel (AList.update byLabel [] base) vals c = Inr cm1"
    and obs: "observation cm n ws = Some v"
    and un: "\<not> overwrites cm n ws
               (map (\<lambda>(key, val). (name, AList.update byLabel key base)) vals)"
  shows "observation cm1 n ws = Some v"
proof -
  from observation_createGaugeIfNotExists[OF c] obs have oc: "observation c n ws = Some v"
    by simp
  note lt = keeps_label_tuple[OF keeps_createGaugeIfNotExists[OF c] observation_schema[OF obs]]
  from un have "n \<noteq> name \<or>
      (\<forall>k \<in> fst ` set vals. label_tuple cm name (AList.update byLabel k base) \<noteq> Some ws)"
    unfolding overwrites_by_label by blast
  then have "n \<noteq> name \<or>
      (\<forall>k \<in> fst ` set vals. label_tuple c name (AList.update byLabel k base) \<noteq> Some ws)"
    using lt by auto
  from range_values_frame[OF loop this] oc show ?thesis by simp
qed

lemma run_gauge_operation_frame:
  assumes run: "run_gauge_operation e g cm = Inr cm1"
    and obs: "observation cm n ws = Some v"
    and un: "\<not> overwrites cm n ws (targets g)"
  shows "observation cm1 n ws = Some v"
proof (cases g)
  case (CreateGaugeIfNotExists name hlp labels)
  with run obs show ?thesis by (simp add: observation_createGaugeIfNotExists)
next
  case (UpdateZoneGauge zoneId zoneName name hlp val)
  with run obs un show ?thesis by (auto intro: updateZoneGauge_frame)
next
  case g: (UpdateZoneGaugeByLabel zoneId zoneName name hlp byLabel vals)
  let ?base = "[(''zone_id'', zoneId), (''zone_name'', zoneName)]"
  from run g obtain c where
    c: "createGaugeIfNotExists e name hlp (AList.update byLabel [] ?base) cm = Inr c"
    and loop: "range_values name byLabel (AList.update byLabel [] ?base) vals c = Inr cm1"
    by (auto simp: updateZoneGaugeByLabel_def Let_def split: sum.splits
        simp del: AList.update.simps)
  from un g have "\<not> overwrites cm n ws
               (map (\<lambda>(key, val). (name, AList.update byLabel key ?base)) vals)"
    by (simp del: AList.update.simps)
  from by_label_frame[OF c loop obs this] show ?thesis .
next
  case g: (UpdateAccountGaugeByLabel accountId name hlp byLabel vals)
  let ?base = "[(''account_id'', accountId)]"
  from run g obtain c where
    c: "createGaugeIfNotExists e name hlp (AList.update byLabel [] ?base) cm = Inr c"
    and loop: "range_values name byLabel (AList.update byLabel [] ?base) vals c = Inr cm1"
    by (auto simp: updateAccountGaugeByLabel_def Let_def split: sum.splits
        simp del: AList.update.simps)
  from un g have "\<not> overwrites cm n ws
               (map (\<lambda>(key, val). (name, AList.update byLabel key ?base)) vals)"
    by (simp del: AList.update.simps)
  from by_label_frame[OF c loop obs this] show ?thesis .
qed

lemma seqP_gauge_operations_frame:
  assumes "seqP (map (run_gauge_operation e) gs) cm = Inr cm1"
    and "observation cm n ws = Some v"
    and "\<not> overwrites cm n ws (concat (map targets gs))"
  shows "observation cm1 n ws = Some v"
  using assms
proof (induction gs arbitrary: cm)
  case Nil
  then show ?case by simp
next
  case (Cons g gs)
  from Cons.prems(1) obtain c where g: "run_gauge_operation e g cm = Inr c"
    and r: "seqP (map (run_gauge_operation e) gs) c = Inr cm1"
    by (auto split: sum.splits)
  from Cons.prems(3) have u1: "\<not> overwrites cm n ws (targets g)"
    and u2: "\<not> overwrites cm n ws (concat (map targets gs))"
    by (simp_all add: overwrites_append)
  from run_gauge_operation_frame[OF g Cons.prems(2) u1] have oc: "observation c n ws = Some v" .
  from overwrites_keeps[OF keeps_run_gauge_operation[OF g] observation_schema[OF Cons.prems(2)]] u2
  have "\<not> overwrites c n ws (concat (map targets gs))" by simp
  from Cons.IH[OF r oc this] show ?case .
qed

lemma run_operation_frame:
  assumes run: "run_operation e op (w, cm) = Inr (w1, cm1)"
    and obs: "observation cm n ws = Some v"
    and un: "\<not> overwrites cm n ws (writes e op (w, cm))"
  shows "observation cm1 n ws = Some v"
proof (cases op)
  case (OpGauge g)
  with run have "run_gauge_operation e g cm = Inr cm1"
    by (auto simp: lift_cm_def split: sum.splits)
  from run_gauge_operation_frame[OF this obs] un OpGauge show ?thesis by simp
next
  case (OpUpdateAccount accountId)
  with run have "updateAccount e accountId (w, cm) = Inr (w1, cm1)" by simp
  from updateAccount_operation[OF this] show ?thesis
  proof (elim disjE conjE exE)
    assume "cm1 = cm"
    with obs show ?thesis by simp
  next
    fix m
    assume g: "run_gauge_operation e (account_operation accountId m) cm = Inr cm1"
      and t: "writes e (OpUpdateAccount accountId) (w, cm) =
                targets (account_operation accountId m)"
    from un OpUpdateAccount t have "\<not> overwrites cm n ws (targets (account_operation accountId m))"
      by simp
    from run_gauge_operation_frame[OF g obs this] show ?thesis .
  qed
next
  case (OpUpdateZone zoneName)
  with run have "updateZone e zoneName (w, cm) = Inr (w1, cm1)" by simp
  from updateZone_operations[OF this] show ?thesis
  proof (elim disjE conjE exE)
    assume "cm1 = cm"
    with obs show ?thesis by simp
  next
    fix zoneId d
    assume g: "seqP (map (run_gauge_operation e)
                 (zone_operations zoneId zoneName (since cm) d)) cm = Inr cm1"
      and t: "writes e (OpUpdateZone zoneName) (w, cm) =
                concat (map targets (zone_operations zoneId zoneName (since cm) d))"
    from un OpUpdateZone t have "\<not> overwrites cm n ws
        (concat (map targets (zone_operations zoneId zoneName (since cm) d)))"
      by simp
    from seqP_gauge_operations_frame[OF g obs this] show ?thesis .
  qed
qed

lemma forEach_run_operation_frame:
  assumes "forEach (run_operation e) ops (w, cm) = Inr (w1, cm1)"
    and "observation cm n ws = Some v"
    and "\<not> overwrites cm n ws (writes_all e ops (w, cm))"
  shows "observation cm1 n ws = Some v"
  using assms
proof (induction ops arbitrary: w cm)
  case Nil
  then show ?case by simp
next
  case (Cons op ops)
  from Cons.prems(1) obtain w2 cm2 where b: "run_operation e op (w, cm) = Inr (w2, cm2)"
    and r: "forEach (run_operation e) ops (w2, cm2) = Inr (w1, cm1)"
    by (auto split: sum.splits)
  from b have wa: "writes_all e (op # ops) (w, cm) =
      writes e op (w, cm) @ writes_all e ops (w2, cm2)"
    by simp
  from Cons.prems(3) have u1: "\<not> overwrites cm n ws (writes e op (w, cm))"
    and u2: "\<not> overwrites cm n ws (writes_all e ops (w2, cm2))"
    unfolding wa by (simp_all add: overwrites_append)
  from run_operation_frame[OF b Cons.prems(2) u1] have oc: "observation cm2 n ws = Some v" .
  from overwrites_keeps[OF keeps_run_operation[OF b] observation_schema[OF Cons.prems(2)]] u2
  have "\<not> overwrites cm2 n ws (writes_all e ops (w2, cm2))" by simp
  from Cons.IH[OF r oc this] show ?case .
qed

text \<open>
  Claim C9. Whatever operations are run one after the other, as long as none panics: an
  observation that a vector held before is still held afterwards; every vector that was
  registered is still registered with its name, help text and label names; and an
  observation keeps the very value it had unless one of the operations handed its vector
  and its tuple of label values to \<^verbatim>\<open>With\<close>, that is, wrote it again. A call of \<open>update\<close> is
  such a sequence, the one of \<open>update_operations\<close>. Values are written by \<open>With_Set\<close>
  alone, which sets the value of the tuple it addresses and leaves every other
  observation as it was; \<open>createGaugeIfNotExists\<close> changes no observation.
\<close>

theorem updates_never_remove_observations:
  assumes "forEach (run_operation (e :: ('x, 'w) env)) ops (w, cm) = Inr (w1, cm1)"
  shows "(\<forall>n ws. observation cm n ws \<noteq> None \<longrightarrow> observation cm1 n ws \<noteq> None) \<and>
         (\<forall>n. schema cm n \<noteq> None \<longrightarrow> schema cm1 n = schema cm n) \<and>
         (\<forall>n ws v. observation cm n ws = Some v \<and>
                    \<not> overwrites cm n ws (writes_all e ops (w, cm)) \<longrightarrow>
                    observation cm1 n ws = Some v) \<and>
         (\<forall>s. update e s = forEach (run_operation e) (update_operations (snd s)) s) \<and>
         (\<forall>name labels v (c :: 'x CloudflareMetrics) c1. With_Set name labels v c = Inr c1 \<longrightarrow>
            (\<forall>n ws. observation c1 n ws =
                      (if n = name \<and> label_tuple c name labels = Some ws then Some v
                       else observation c n ws))) \<and>
         (\<forall>name hlp labels c c1. createGaugeIfNotExists e name hlp labels c = Inr c1 \<longrightarrow>
            (\<forall>n ws. observation c1 n ws = observation c n ws))"
proof -
  from assms have "keeps cm cm1"
    by (rule forEach_keeps[rotated]) (rule keeps_run_operation)
  then have 1: "\<forall>n ws. observation cm n ws \<noteq> None \<longrightarrow> observation cm1 n ws \<noteq> None"
    and 2: "\<forall>n. schema cm n \<noteq> None \<longrightarrow> schema cm1 n = schema cm n"
    by (simp_all add: keeps_def)
  have 3: "\<forall>n ws v. observation cm n ws = Some v \<and>
                    \<not> overwrites cm n ws (writes_all e ops (w, cm)) \<longrightarrow>
                    observation cm1 n ws = Some v"
    using forEach_run_operation_frame[OF assms] by blast
  have 4: "\<forall>s. update e s = forEach (run_operation e) (update_operations (snd s)) s"
  proof
    fix s :: "'w \<times> 'x CloudflareMetrics"
    obtain w0 c0 where "s = (w0, c0)" by (cases s)
    then show "update e s = forEach (run_operation e) (update_operations (snd s)) s"
      by (simp only: update_is_update_operations snd_conv)
  qed
  have 5: "\<forall>name labels v c c1. With_Set name labels v c = Inr c1 \<longrightarrow>
            (\<forall>n ws. observation c1 n ws =
                      (if n = name \<and> label_tuple c name labels = Some ws then Some v
                       else observation c n ws))"
    by (intro allI impI) (rule With_Set_observation)
  have 6: "\<forall>name hlp labels c c1. createGaugeIfNotExists e name hlp labels c = Inr c1 \<longrightarrow>
            (\<forall>n ws. observation c1 n ws = observation c n ws)"
    using observation_createGaugeIfNotExists by blast
  from 1 2 3 4 5 6 show ?thesis by (intro conjI)
qed

theorem updates_never_remove_observations_witness:
  "forEach (run_operation demo_env)
     [OpGauge (UpdateZoneGaugeByLabel ''id-example.com'' ''example.com''
        ''cloudflare_requests_country_rate24h''
        ''Total number of requests over the last 24h by request country'' ''country''
        [(''DE'', 300)]),
      OpUpdateAccount ''badacct'']
     (0, demo_country) = Inr (1, demo_country_later) \<and>
   observation demo_country ''cloudflare_requests_country_rate24h''
     [''id-example.com'', ''example.com'', ''US''] = Some 500 \<and>
   \<not> overwrites demo_country ''cloudflare_requests_country_rate24h''
     [''id-example.com'', ''example.com'', ''US'']
     (writes_all demo_env
        [OpGauge (UpdateZoneGaugeByLabel ''id-example.com'' ''example.com''
           ''cloudflare_requests_country_rate24h''
           ''Total number of requests over the last 24h by request country'' ''country''
           [(''DE'', 300)]),
         OpUpdateAccount ''badacct'']
        (0, demo_country)) \<and>
   observation demo_country_later ''cloudflare_requests_country_rate24h''
     [''id-example.com'', ''example.com'', ''US''] = Some 500 \<and>
   observation demo_country_later ''cloudflare_requests_country_rate24h''
     [''id-example.com'', ''example.com'', ''DE''] = Some 300"
proof -
  let ?ops = "[OpGauge (UpdateZoneGaugeByLabel ''id-example.com'' ''example.com''
        ''cloudflare_requests_country_rate24h''
        ''Total number of requests over the last 24h by request country'' ''country''
        [(''DE'', 300)]),
      OpUpdateAccount ''badacct'']"
  have g: "run_operation demo_env (OpGauge (UpdateZoneGaugeByLabel ''id-example.com''
        ''example.com'' ''cloudflare_requests_country_rate24h''
        ''Total number of requests over the last 24h by request country'' ''country''
        [(''DE'', 300)])) (0, demo_country) = Inr (0, demo_country_later)"
    by (simp add: lift_cm_def updateZoneGaugeByLabel_def createGaugeIfNotExists_def
        With_Set_def With_def Set_gauge_def Let_def demo_cm_def demo_country_def
        demo_country_later_def newWithAPI_def float64_300)
  have a: "run_operation demo_env (OpUpdateAccount ''badacct'') (0, demo_country_later) =
      Inr (1, demo_country_later)"
    by (simp add: demo_env_def)
  from g a have h: "forEach (run_operation demo_env) ?ops (0, demo_country) =
      Inr (1, demo_country_later)"
    by (simp only: forEach.simps sum.case)
  have o: "observation demo_country ''cloudflare_requests_country_rate24h''
     [''id-example.com'', ''example.com'', ''US''] = Some 500"
    by (simp add: observation_def demo_country_def)
  have wr: "writes_all demo_env ?ops (0, demo_country) =
     [(''cloudflare_requests_country_rate24h'',
       [(''zone_id'', ''id-example.com''), (''zone_name'', ''example.com''),
        (''country'', ''DE'')])]"
    unfolding writes_all.simps g a sum.case
    by (simp add: demo_env_def)
  have u: "\<not> overwrites demo_country ''cloudflare_requests_country_rate24h''
     [''id-example.com'', ''example.com'', ''US''] (writes_all demo_env ?ops (0, demo_country))"
    unfolding wr by (simp add: overwrites_def label_tuple_def demo_country_def)
  from updates_never_remove_observations[OF h, THEN conjunct2, THEN conjunct2, THEN conjunct1]
    o u
  have k: "observation demo_country_later ''cloudflare_requests_country_rate24h''
     [''id-example.com'', ''example.com'', ''US''] = Some 500"
    by blast
  have d: "observation demo_country_later ''cloudflare_requests_country_rate24h''
     [''id-example.com'', ''example.com'', ''DE''] = Some 300"
    by (simp add: observation_def demo_country_later_def)
  from h o u k d show ?thesis by (intro conjI)
qed

subsection \<open>The gauges of a zone\<close>



lemma updateZone_fetched:
  assumes "ZoneIDByName e (api cm) zoneName w = (Inr zoneId, w1)"
    and "ParseDuration e (''-'' @ since cm) = Inr dur"
    and "ZoneAnalyticsDashboard e (api cm) zoneId (Now e w1 + dur) False w1 = (Inr d, w2)"
  shows "updateZone e zoneName (w, cm) =
           (case updateZone_gauges e zoneId zoneName d cm of
              Inl p \<Rightarrow> Inl p
            | Inr cm1 \<Rightarrow> Inr (w2, cm1))"
  using assms by simp



subsection \<open>The access tokens of an account\<close>

lemma tokenExpirations_spec:
  assumes "\<forall>t \<in> set tokens. token_ExpiresAt t \<noteq> None"
  shows "\<exists>m. tokenExpirations tokens m0 = Inr m \<and>
           (\<forall>n. map_of m n =
                  (case last_expiration tokens n of Some x \<Rightarrow> Some x | None \<Rightarrow> map_of m0 n)) \<and>
           (distinct (map fst m0) \<longrightarrow> distinct (map fst m))"
  using assms
proof (induction tokens arbitrary: m0)
  case Nil
  then show ?case by simp
next
  case (Cons t ts)
  from Cons.prems obtain x where x: "token_ExpiresAt t = Some x" by auto
  from Cons.prems have "\<forall>t \<in> set ts. token_ExpiresAt t \<noteq> None" by simp
  from Cons.IH[OF this, of "AList.update (token_Name t) x m0"] obtain m where
    m: "tokenExpirations ts (AList.update (token_Name t) x m0) = Inr m"
    and lk: "\<And>n. map_of m n =
               (case last_expiration ts n of
                  Some y \<Rightarrow> Some y
                | None \<Rightarrow> map_of (AList.update (token_Name t) x m0) n)"
    and d: "distinct (map fst (AList.update (token_Name t) x m0)) \<longrightarrow> distinct (map fst m)"
    by (elim exE conjE) (rule that, (assumption | simp)+)
  have 1: "tokenExpirations (t # ts) m0 = Inr m" using x m by simp
  have 2: "\<forall>n. map_of m n =
      (case last_expiration (t # ts) n of Some y \<Rightarrow> Some y | None \<Rightarrow> map_of m0 n)"
    using x by (auto simp: lk update_conv' split: option.splits)
  have 3: "distinct (map fst m0) \<longrightarrow> distinct (map fst m)"
    using d by (simp add: distinct_update)
  from 1 2 3 show ?case by (intro exI[of _ m] conjI)
qed

lemma tokenExpirations_Inr:
  "tokenExpirations tokens m0 = Inr m \<Longrightarrow> \<forall>t \<in> set tokens. token_ExpiresAt t \<noteq> None"
  by (induction tokens arbitrary: m0) (auto split: option.splits)

lemma last_expiration_Some:
  assumes "t \<in> set tokens" and "\<forall>t \<in> set tokens. token_ExpiresAt t \<noteq> None"
  shows "\<exists>x. last_expiration tokens (token_Name t) = Some x"
  using assms by (induction tokens) (auto split: option.splits)

lemma last_expiration_None:
  "n \<notin> token_Name ` set tokens \<Longrightarrow> last_expiration tokens n = None"
  by (induction tokens) (auto split: option.splits)

lemma last_expiration_distinct:
  assumes "distinct (map token_Name tokens)" and "t \<in> set tokens"
  shows "last_expiration tokens (token_Name t) = token_ExpiresAt t"
  using assms
proof (induction tokens)
  case Nil
  then show ?case by simp
next
  case (Cons a ts)
  show ?case
  proof (cases "t \<in> set ts")
    case True
    with Cons.prems have ne: "token_Name a \<noteq> token_Name t" by auto
    from Cons.IH True Cons.prems have "last_expiration ts (token_Name t) = token_ExpiresAt t"
      by simp
    with ne show ?thesis by (simp split: option.splits)
  next
    case False
    with Cons.prems have ta: "t = a" by simp
    from Cons.prems have "token_Name a \<notin> token_Name ` set ts" by simp
    from last_expiration_None[OF this] ta show ?thesis by simp
  qed
qed

lemma account_labels:
  "AList.update ''token_name'' k [(''account_id'', accountId)] =
     [(''account_id'', accountId), (''token_name'', k)]"
  by simp

text \<open>
  Claim C7, as amended. Let the request for the access tokens of an account succeed.
  Whenever \<open>updateAccount\<close> returns, every token of the list has an expiration, and for
  every token of the list the gauge \<open>access_service_token_expiration\<close> holds, under
  \<open>account_id\<close> set to the account and \<open>token_name\<close> set to the name of the token, the
  expiration in unix seconds, converted to \<open>float64\<close>, of the last token of the list
  that bears this name. When no two tokens share a name, that is the expiration of the
  token itself. A vector that the registry held under the name of the gauge before the
  call is taken to name no label twice.
\<close>

theorem updateAccount_records_last_expiration:
  assumes fetch: "AccessServiceTokens e (api cm) accountId w = (Inr tokens, w1)"
    and wf: "\<forall>g. map_of (gauges cm) ''access_service_token_expiration'' = Some g \<longrightarrow>
               distinct (label_names g)"
    and run: "updateAccount e accountId (w, cm) = Inr (w2, cm1)"
  shows "w2 = w1 \<and>
         (\<forall>t \<in> set tokens. token_ExpiresAt t \<noteq> None) \<and>
         (\<forall>t \<in> set tokens.
            gauge_value cm1 ''access_service_token_expiration''
              [(''account_id'', accountId), (''token_name'', token_Name t)] =
            map_option float64 (last_expiration tokens (token_Name t))) \<and>
         (distinct (map token_Name tokens) \<longrightarrow>
            (\<forall>t \<in> set tokens.
               gauge_value cm1 ''access_service_token_expiration''
                 [(''account_id'', accountId), (''token_name'', token_Name t)] =
               map_option float64 (token_ExpiresAt t)))"
proof -
  let ?name = "''access_service_token_expiration''"
  let ?hlp = "''The current unix timestamp at which a service token expires''"
  let ?base = "[(''account_id'', accountId)]"
  from run fetch obtain m where te: "tokenExpirations tokens [] = Inr m"
    and ua: "updateAccountGaugeByLabel e accountId ?name ?hlp ''token_name'' m cm = Inr cm1"
    and w2: "w2 = w1"
    by (auto split: sum.splits)
  from tokenExpirations_Inr[OF te] have nonnil: "\<forall>t \<in> set tokens. token_ExpiresAt t \<noteq> None" .
  from tokenExpirations_spec[OF nonnil, of "[]"] te have
    lk: "\<forall>n. map_of m n =
               (case last_expiration tokens n of Some x \<Rightarrow> Some x | None \<Rightarrow> map_of [] n)"
    and dm: "distinct (map fst m)"
    by auto
  from ua obtain c where
    create: "createGaugeIfNotExists e ?name ?hlp (AList.update ''token_name'' [] ?base) cm = Inr c"
    and loop: "range_values ?name ''token_name'' (AList.update ''token_name'' [] ?base) m c = Inr cm1"
    by (auto simp: updateAccountGaugeByLabel_def Let_def split: sum.splits
        simp del: AList.update.simps)
  have base: "distinct (map fst ?base)" by simp
  note spec = by_label_spec[OF create loop dm base wf, THEN conjunct1]
  have val: "\<And>t. t \<in> set tokens \<Longrightarrow>
      gauge_value cm1 ?name [(''account_id'', accountId), (''token_name'', token_Name t)] =
      map_option float64 (last_expiration tokens (token_Name t))"
  proof -
    fix t assume t: "t \<in> set tokens"
    from last_expiration_Some[OF t nonnil] obtain x where
      x: "last_expiration tokens (token_Name t) = Some x" ..
    with lk have "map_of m (token_Name t) = Some x" by simp
    then have "(token_Name t, x) \<in> set m" by (rule map_of_SomeD)
    with spec have "gauge_value cm1 ?name (AList.update ''token_name'' (token_Name t) ?base) =
        Some (float64 x)"
      by blast
    with x show "gauge_value cm1 ?name
        [(''account_id'', accountId), (''token_name'', token_Name t)] =
      map_option float64 (last_expiration tokens (token_Name t))"
      by (simp add: account_labels)
  qed
  have 2: "\<forall>t \<in> set tokens.
      gauge_value cm1 ?name [(''account_id'', accountId), (''token_name'', token_Name t)] =
      map_option float64 (last_expiration tokens (token_Name t))"
    using val by blast
  have 3: "distinct (map token_Name tokens) \<longrightarrow>
      (\<forall>t \<in> set tokens.
         gauge_value cm1 ?name [(''account_id'', accountId), (''token_name'', token_Name t)] =
         map_option float64 (token_ExpiresAt t))"
  proof (intro impI ballI)
    fix t assume d: "distinct (map token_Name tokens)" and t: "t \<in> set tokens"
    from val[OF t] last_expiration_distinct[OF d t]
    show "gauge_value cm1 ?name [(''account_id'', accountId), (''token_name'', token_Name t)] =
         map_option float64 (token_ExpiresAt t)"
      by simp
  qed
  from w2 nonnil 2 3 show ?thesis by (intro conjI)
qed

theorem updateAccount_records_last_expiration_witness:
  "AccessServiceTokens demo_env (api demo_cm) ''acct1'' 0 =
     (Inr [\<lparr> token_Name = ''tok1'', token_ExpiresAt = Some 1700000000 \<rparr>], 1) \<and>
   map_of (gauges demo_cm) ''access_service_token_expiration'' = None \<and>
   updateAccount demo_env ''acct1'' (0, demo_cm) = Inr (1, demo_token) \<and>
   gauge_value demo_token ''access_service_token_expiration''
     [(''account_id'', ''acct1''), (''token_name'', ''tok1'')] = Some 1700000000"
proof -
  let ?tokens = "[\<lparr> token_Name = ''tok1'', token_ExpiresAt = Some 1700000000 \<rparr>]"
  have fetch: "AccessServiceTokens demo_env (api demo_cm) ''acct1'' 0 = (Inr ?tokens, 1)"
    by (simp add: demo_env_def)
  have none: "map_of (gauges demo_cm) ''access_service_token_expiration'' = None"
    by (simp add: demo_cm_def newWithAPI_def)
  then have wf: "\<forall>g. map_of (gauges demo_cm) ''access_service_token_expiration'' = Some g \<longrightarrow>
      distinct (label_names g)"
    by simp
  have run: "updateAccount demo_env ''acct1'' (0, demo_cm) = Inr (1, demo_token)"
    by (simp add: updateAccountGaugeByLabel_def createGaugeIfNotExists_def With_Set_def
        With_def Set_gauge_def NewGaugeVec_def Let_def demo_cm_def demo_token_def
        demo_env_def newWithAPI_def float64_1700000000)
  from updateAccount_records_last_expiration[OF fetch wf run]
  have "\<forall>t \<in> set ?tokens.
          gauge_value demo_token ''access_service_token_expiration''
            [(''account_id'', ''acct1''), (''token_name'', token_Name t)] =
          map_option float64 (last_expiration ?tokens (token_Name t))"
    by (elim conjE)
  then have "gauge_value demo_token ''access_service_token_expiration''
        [(''account_id'', ''acct1''), (''token_name'', ''tok1'')] = Some 1700000000"
    by (simp add: float64_1700000000)
  with fetch none run show ?thesis by (intro conjI)
qed

text \<open>
  The claim as it was stated fails on two tokens of one name: the gauge holds the
  expiration of the second, so the first token's expiration is not recorded.
\<close>

theorem updateAccount_duplicate_token_name_counterexample:
  "AccessServiceTokens demo_env (api demo_cm) ''acct2'' 0 =
     (Inr [\<lparr> token_Name = ''deploy'', token_ExpiresAt = Some 1700000000 \<rparr>,
           \<lparr> token_Name = ''deploy'', token_ExpiresAt = Some 1800000000 \<rparr>], 1) \<and>
   updateAccount demo_env ''acct2'' (0, demo_cm) = Inr (1, demo_tokens) \<and>
   gauge_value demo_tokens ''access_service_token_expiration''
     [(''account_id'', ''acct2''), (''token_name'', ''deploy'')] = Some 1800000000 \<and>
   gauge_value demo_tokens ''access_service_token_expiration''
     [(''account_id'', ''acct2''), (''token_name'', ''deploy'')] \<noteq> Some (float64 1700000000)"
proof -
  have fetch: "AccessServiceTokens demo_env (api demo_cm) ''acct2'' 0 =
     (Inr [\<lparr> token_Name = ''deploy'', token_ExpiresAt = Some 1700000000 \<rparr>,
           \<lparr> token_Name = ''deploy'', token_ExpiresAt = Some 1800000000 \<rparr>], 1)"
    by (simp add: demo_env_def)
  have run: "updateAccount demo_env ''acct2'' (0, demo_cm) = Inr (1, demo_tokens)"
    by (simp add: updateAccountGaugeByLabel_def createGaugeIfNotExists_def With_Set_def
        With_def Set_gauge_def NewGaugeVec_def Let_def demo_cm_def demo_tokens_def
        demo_env_def newWithAPI_def float64_1700000000 float64_1800000000)
  have val: "gauge_value demo_tokens ''access_service_token_expiration''
     [(''account_id'', ''acct2''), (''token_name'', ''deploy'')] = Some 1800000000"
    by (simp add: gauge_value_def label_tuple_def observation_def demo_tokens_def)
  from fetch run val show ?thesis by (simp add: float64_1700000000)
qed

subsection \<open>When an update returns\<close>

lemma cm_inv_schema:
  "cm_inv cm \<longleftrightarrow>
     (\<forall>n nm h ls. schema cm n = Some (nm, h, ls) \<longrightarrow>
        nm = n \<and> distinct ls \<and>
        (\<forall>xs. expected_labels (since cm) n = Some xs \<longrightarrow> set ls = set xs))"
  unfolding cm_inv_def schema_def
  by (auto split: option.splits)

lemma cm_inv_same_schema:
  assumes "cm_inv cm" and "\<And>n. schema cm1 n = schema cm n" and "since cm1 = since cm"
  shows "cm_inv cm1"
  using assms unfolding cm_inv_schema by simp

lemma cm_inv_no_gauges: "gauges cm = [] \<Longrightarrow> cm_inv cm"
  by (simp add: cm_inv_def)

lemma cm_inv_newWithAPI: "cm_inv (newWithAPI cloudflareApi config)"
  by (rule cm_inv_no_gauges) (simp add: newWithAPI_def)

lemma createGaugeIfNotExists_ok:
  assumes inv: "cm_inv cm"
    and reg: "MustRegister_ok e (NewGaugeVec name hlp (map fst labels))"
    and ex: "expected_labels (since cm) name = Some xs"
    and fit: "set (map fst labels) = set xs"
    and dl: "distinct (map fst labels)"
  shows "\<exists>c g. createGaugeIfNotExists e name hlp labels cm = Inr c \<and> cm_inv c \<and>
           since c = since cm \<and> map_of (gauges c) name = Some g \<and>
           distinct (label_names g) \<and> set (label_names g) = set xs"
proof (cases "map_of (gauges cm) name")
  case None
  let ?g = "NewGaugeVec name hlp (map fst labels)"
  let ?c = "cm\<lparr>gauges := gauges cm @ [(name, ?g)]\<rparr>"
  from None reg have c: "createGaugeIfNotExists e name hlp labels cm = Inr ?c"
    by (simp add: createGaugeIfNotExists_absent)
  from schema_createGaugeIfNotExists[OF c] have
    sch: "\<And>n. schema ?c n =
            (if n = name \<and> schema cm n = None then Some (name, hlp, map fst labels)
             else schema cm n)" .
  have "cm_inv ?c"
    unfolding cm_inv_schema
  proof (intro allI impI)
    fix n nm h ls
    assume a: "schema ?c n = Some (nm, h, ls)"
    show "nm = n \<and> distinct ls \<and>
        (\<forall>xs. expected_labels (since ?c) n = Some xs \<longrightarrow> set ls = set xs)"
    proof (cases "n = name \<and> schema cm n = None")
      case True
      then have n: "n = name" and none: "schema cm name = None" by auto
      from a have "ls = map fst labels" "nm = name" unfolding sch n using none by simp_all
      with n dl fit ex show ?thesis by simp
    next
      case False
      with a have "schema cm n = Some (nm, h, ls)" unfolding sch by (simp split: if_splits)
      with inv[unfolded cm_inv_schema] show ?thesis by simp
    qed
  qed
  moreover have "since ?c = since cm" by simp
  moreover have "map_of (gauges ?c) name = Some ?g" using None by (simp add: map_add_def)
  moreover have "distinct (label_names ?g)" "set (label_names ?g) = set xs"
    using dl fit by (simp_all add: NewGaugeVec_def)
  ultimately have "createGaugeIfNotExists e name hlp labels cm = Inr ?c \<and> cm_inv ?c \<and>
           since ?c = since cm \<and> map_of (gauges ?c) name = Some ?g \<and>
           distinct (label_names ?g) \<and> set (label_names ?g) = set xs"
    using c by (intro conjI)
  then show ?thesis by (intro exI)
next
  case (Some g)
  then have c: "createGaugeIfNotExists e name hlp labels cm = Inr cm"
    by (rule createGaugeIfNotExists_present)
  from inv[unfolded cm_inv_def, rule_format, OF Some]
  have "distinct (label_names g)"
    and "\<forall>ls. expected_labels (since cm) name = Some ls \<longrightarrow> set (label_names g) = set ls"
    by simp_all
  with ex have "distinct (label_names g)" "set (label_names g) = set xs" by simp_all
  with c inv Some have "createGaugeIfNotExists e name hlp labels cm = Inr cm \<and> cm_inv cm \<and>
           since cm = since cm \<and> map_of (gauges cm) name = Some g \<and>
           distinct (label_names g) \<and> set (label_names g) = set xs"
    by simp
  then show ?thesis by (intro exI)
qed

lemma With_Set_ok:
  assumes inv: "cm_inv cm"
    and g: "map_of (gauges cm) name = Some g"
    and dg: "distinct (label_names g)"
    and fit: "set (label_names g) = fst ` set labels"
    and dl: "distinct (map fst labels)"
    and vl: "valid_values labels"
  shows "\<exists>cm1. With_Set name labels v cm = Inr cm1 \<and> cm_inv cm1 \<and> since cm1 = since cm"
proof -
  from label_tuple_fits[OF g dg fit dl vl] obtain cm1 where
    w: "With_Set name labels v cm = Inr cm1"
    using With_Set_Inr_label_tuple by blast
  from frame_With_Set[OF w] have s: "since cm1 = since cm" by simp
  from inv schema_With_Set[OF w] s have "cm_inv cm1" by (rule cm_inv_same_schema)
  with w s show ?thesis by blast
qed

lemma updateZoneGauge_ok:
  assumes inv: "cm_inv cm"
    and reg: "MustRegister_ok e (NewGaugeVec name hlp [''zone_id'', ''zone_name''])"
    and ex: "expected_labels (since cm) name = Some [''zone_id'', ''zone_name'']"
    and vi: "utf8_ValidString zoneId" and vn: "utf8_ValidString zoneName"
  shows "\<exists>cm1. updateZoneGauge e zoneId zoneName name hlp val cm = Inr cm1 \<and> cm_inv cm1 \<and>
           since cm1 = since cm"
proof -
  let ?labels = "[(''zone_id'', zoneId), (''zone_name'', zoneName)]"
  have fit: "set (map fst ?labels) = set [''zone_id'', ''zone_name'']" by simp
  have dl: "distinct (map fst ?labels)" by simp
  from reg have reg1: "MustRegister_ok e (NewGaugeVec name hlp (map fst ?labels))" by simp
  from vi vn have vl: "valid_values ?labels" by simp
  from createGaugeIfNotExists_ok[OF inv reg1 ex fit dl] obtain c g where
    c: "createGaugeIfNotExists e name hlp ?labels cm = Inr c" and ic: "cm_inv c"
    and sc: "since c = since cm" and g: "map_of (gauges c) name = Some g"
    and dg: "distinct (label_names g)"
    and sg: "set (label_names g) = set [''zone_id'', ''zone_name'']"
    by blast
  from sg have fit2: "set (label_names g) = fst ` set ?labels" by simp
  from With_Set_ok[OF ic g dg fit2 dl vl, of "float64 val"] obtain cm1 where
    w: "With_Set name ?labels (float64 val) c = Inr cm1" and i1: "cm_inv cm1"
    and s1: "since cm1 = since c"
    by blast
  have u: "updateZoneGauge e zoneId zoneName name hlp val cm = Inr cm1"
    by (simp add: updateZoneGauge_def Let_def c w)
  from s1 sc have s: "since cm1 = since cm" by simp
  from u i1 s show ?thesis by (intro exI[of _ cm1] conjI)
qed

lemma by_label_ok:
  assumes inv: "cm_inv cm"
    and reg: "MustRegister_ok e
                (NewGaugeVec name hlp (map fst (AList.update byLabel [] base)))"
    and ex: "expected_labels (since cm) name = Some xs"
    and fit: "set xs = insert byLabel (fst ` set base)"
    and db: "distinct (map fst base)"
    and vb: "valid_values base"
    and vk: "\<forall>k \<in> fst ` set vals. utf8_ValidString k"
  shows "\<exists>c cm1. createGaugeIfNotExists e name hlp (AList.update byLabel [] base) cm = Inr c \<and>
           range_values name byLabel (AList.update byLabel [] base) vals c = Inr cm1 \<and>
           cm_inv cm1 \<and> since cm1 = since cm"
proof -
  let ?L = "\<lambda>k. AList.update byLabel k base"
  have keys: "\<And>k. fst ` set (?L k) = insert byLabel (fst ` set base)"
    by (simp add: dom_update)
  have dL: "\<And>k. distinct (map fst (?L k))"
    by (rule distinct_update[OF db])
  have fit0: "set (map fst (?L [])) = set xs"
    using keys[of "[]"] fit by simp
  from createGaugeIfNotExists_ok[OF inv reg ex fit0 dL] obtain c g where
    c: "createGaugeIfNotExists e name hlp (?L []) cm = Inr c" and ic: "cm_inv c"
    and sc: "since c = since cm" and g: "map_of (gauges c) name = Some g"
    and dg: "distinct (label_names g)" and sg: "set (label_names g) = set xs"
    by blast
  have "\<forall>k \<in> fst ` set vals. label_tuple c name (?L k) \<noteq> None"
  proof
    fix k assume k: "k \<in> fst ` set vals"
    from sg fit keys[of k] have f: "set (label_names g) = fst ` set (?L k)" by simp
    from vk k have "utf8_ValidString k" by blast
    with vb have "valid_values (?L k)" by (simp add: valid_values_update)
    from label_tuple_fits[OF g dg f dL this] show "label_tuple c name (?L k) \<noteq> None" .
  qed
  from range_values_total[OF this, of "[]"] obtain cm1 where
    r: "range_values name byLabel (?L []) vals c = Inr cm1"
    by blast
  from frame_range_values[OF r] sc have s: "since cm1 = since cm" by simp
  from frame_range_values[OF r] have s1: "since cm1 = since c" by simp
  from ic schema_range_values[OF r] s1 have i1: "cm_inv cm1" by (rule cm_inv_same_schema)
  from c r i1 s show ?thesis by (intro exI[of _ c] exI[of _ cm1] conjI)
qed

lemma updateZoneGaugeByLabel_ok:
  assumes inv: "cm_inv cm"
    and reg: "MustRegister_ok e (NewGaugeVec name hlp [''zone_id'', ''zone_name'', byLabel])"
    and ex: "expected_labels (since cm) name = Some [''zone_id'', ''zone_name'', byLabel]"
    and nb: "byLabel \<noteq> ''zone_id''" "byLabel \<noteq> ''zone_name''"
    and vi: "utf8_ValidString zoneId" and vn: "utf8_ValidString zoneName"
    and vk: "\<forall>k \<in> fst ` set vals. utf8_ValidString k"
  shows "\<exists>cm1. updateZoneGaugeByLabel e zoneId zoneName name hlp byLabel vals cm = Inr cm1 \<and>
           cm_inv cm1 \<and> since cm1 = since cm"
proof -
  let ?base = "[(''zone_id'', zoneId), (''zone_name'', zoneName)]"
  have fit: "set [''zone_id'', ''zone_name'', byLabel] = insert byLabel (fst ` set ?base)"
    by auto
  have db: "distinct (map fst ?base)" by simp
  from vi vn have vb: "valid_values ?base" by simp
  from nb have "map fst (AList.update byLabel [] ?base) = [''zone_id'', ''zone_name'', byLabel]"
    by auto
  with reg have reg1: "MustRegister_ok e
      (NewGaugeVec name hlp (map fst (AList.update byLabel [] ?base)))"
    by (simp only:)
  from by_label_ok[OF inv reg1 ex fit db vb vk] obtain c cm1 where
    c: "createGaugeIfNotExists e name hlp (AList.update byLabel [] ?base) cm = Inr c"
    and r: "range_values name byLabel (AList.update byLabel [] ?base) vals c = Inr cm1"
    and rest: "cm_inv cm1" "since cm1 = since cm"
    by blast
  have "updateZoneGaugeByLabel e zoneId zoneName name hlp byLabel vals cm = Inr cm1"
    unfolding updateZoneGaugeByLabel_def Let_def c using r by simp
  with rest show ?thesis by (intro exI[of _ cm1] conjI)
qed

lemma distinct_zone_metrics: "distinct (map fst zone_metrics)"
  by (simp add: zone_metrics_def)

lemma zone_metrics_prefix:
  "(p, h, by) \<in> set zone_metrics \<Longrightarrow> \<exists>q. p = CHR ''c'' # q"
  by (auto simp: zone_metrics_def)

lemma zone_metrics_by:
  "(p, h, Some b) \<in> set zone_metrics \<Longrightarrow> b \<noteq> ''zone_id'' \<and> b \<noteq> ''zone_name''"
  by (auto simp: zone_metrics_def)

lemma expected_labels_zone:
  assumes "(p, h, by) \<in> set zone_metrics"
  shows "expected_labels s (p @ s) =
           Some (case by of None \<Rightarrow> [''zone_id'', ''zone_name'']
                 | Some b \<Rightarrow> [''zone_id'', ''zone_name'', b])"
proof -
  from zone_metrics_prefix[OF assms] have ne: "p @ s \<noteq> ''access_service_token_expiration''"
    by auto
  have "inj (\<lambda>p. p @ s)" by (simp add: inj_def)
  then have "distinct (map fst (map (\<lambda>(p, h, by). (p @ s, by)) zone_metrics))"
    using distinct_zone_metrics
    by (simp add: distinct_map comp_def case_prod_unfold inj_on_def)
  moreover from assms have "(p @ s, by) \<in> set (map (\<lambda>(p, h, by). (p @ s, by)) zone_metrics)"
    by force
  ultimately have "map_of (map (\<lambda>(p, h, by). (p @ s, by)) zone_metrics) (p @ s) = Some by"
    by (rule map_of_is_SomeI)
  with ne show ?thesis by (simp add: expected_labels_def split: option.splits)
qed

lemma expected_labels_account:
  "expected_labels s ''access_service_token_expiration'' = Some [''account_id'', ''token_name'']"
  by (simp add: expected_labels_def)

lemma registry_accepts_zone:
  assumes "registry_accepts e s" and "(p, h, by) \<in> set zone_metrics"
  shows "MustRegister_ok e
           (NewGaugeVec (p @ s) h
              (case by of None \<Rightarrow> [''zone_id'', ''zone_name'']
               | Some b \<Rightarrow> [''zone_id'', ''zone_name'', b]))"
proof -
  from assms(1) have "\<forall>g \<in> set (zone_vectors s). MustRegister_ok e g"
    by (simp add: registry_accepts_def list_all_iff)
  moreover from assms(2) have "NewGaugeVec (p @ s) h
              (case by of None \<Rightarrow> [''zone_id'', ''zone_name'']
               | Some b \<Rightarrow> [''zone_id'', ''zone_name'', b]) \<in> set (zone_vectors s)"
    unfolding zone_vectors_def by force
  ultimately show ?thesis by blast
qed

lemma registry_accepts_account:
  "registry_accepts e s \<Longrightarrow> MustRegister_ok e account_vector"
  by (simp add: registry_accepts_def)

lemma seqP_inv:
  assumes "\<forall>f \<in> set fs. \<forall>s. Q s \<longrightarrow> (\<exists>s1. f s = Inr s1 \<and> Q s1)" and "Q s"
  shows "\<exists>s1. seqP fs s = Inr s1 \<and> Q s1"
  using assms
proof (induction fs arbitrary: s)
  case Nil
  then show ?case by simp
next
  case (Cons f fs)
  from Cons.prems obtain c where f: "f s = Inr c" and q: "Q c" by auto
  from Cons.prems(1) have "\<forall>f \<in> set fs. \<forall>s. Q s \<longrightarrow> (\<exists>s1. f s = Inr s1 \<and> Q s1)" by simp
  from Cons.IH[OF this q] obtain s1 where "seqP fs c = Inr s1" "Q s1" by blast
  with f show ?case by simp
qed

lemma scalar_step:
  assumes reg: "registry_accepts e s"
    and vi: "utf8_ValidString zoneId" and vn: "utf8_ValidString zoneName"
    and tab: "(p, hlp, None) \<in> set zone_metrics"
  shows "\<forall>c. cm_inv c \<and> since c = s \<longrightarrow>
           (\<exists>c1. updateZoneGauge e zoneId zoneName (p @ since c) hlp val c = Inr c1 \<and>
                 cm_inv c1 \<and> since c1 = s)"
proof (intro allI impI)
  fix c :: "'a CloudflareMetrics"
  assume q: "cm_inv c \<and> since c = s"
  then have inv: "cm_inv c" and s: "since c = s" by simp_all
  from registry_accepts_zone[OF reg tab] s
  have reg1: "MustRegister_ok e (NewGaugeVec (p @ since c) hlp [''zone_id'', ''zone_name''])"
    by simp
  from expected_labels_zone[OF tab, of s] s
  have ex: "expected_labels (since c) (p @ since c) = Some [''zone_id'', ''zone_name'']"
    by simp
  from updateZoneGauge_ok[OF inv reg1 ex vi vn, of val] obtain c1 where
    u: "updateZoneGauge e zoneId zoneName (p @ since c) hlp val c = Inr c1"
    and i1: "cm_inv c1" and s1: "since c1 = since c"
    by blast
  with s show "\<exists>c1. updateZoneGauge e zoneId zoneName (p @ since c) hlp val c = Inr c1 \<and>
      cm_inv c1 \<and> since c1 = s"
    by (intro exI[of _ c1] conjI) simp_all
qed

lemma label_step:
  assumes reg: "registry_accepts e s"
    and vi: "utf8_ValidString zoneId" and vn: "utf8_ValidString zoneName"
    and tab: "(p, hlp, Some byLabel) \<in> set zone_metrics"
    and vk: "list_all utf8_ValidString (map fst vals)"
  shows "\<forall>c. cm_inv c \<and> since c = s \<longrightarrow>
           (\<exists>c1. updateZoneGaugeByLabel e zoneId zoneName (p @ since c) hlp byLabel vals c =
                   Inr c1 \<and>
                 cm_inv c1 \<and> since c1 = s)"
proof (intro allI impI)
  fix c :: "'a CloudflareMetrics"
  assume q: "cm_inv c \<and> since c = s"
  then have inv: "cm_inv c" and s: "since c = s" by simp_all
  from registry_accepts_zone[OF reg tab] s
  have reg1: "MustRegister_ok e
      (NewGaugeVec (p @ since c) hlp [''zone_id'', ''zone_name'', byLabel])"
    by simp
  from expected_labels_zone[OF tab, of s] s
  have ex: "expected_labels (since c) (p @ since c) = Some [''zone_id'', ''zone_name'', byLabel]"
    by simp
  from zone_metrics_by[OF tab] have nb: "byLabel \<noteq> ''zone_id''" "byLabel \<noteq> ''zone_name''"
    by simp_all
  from vk have vk1: "\<forall>k \<in> fst ` set vals. utf8_ValidString k"
    by (simp add: list_all_iff)
  from updateZoneGaugeByLabel_ok[OF inv reg1 ex nb vi vn vk1] obtain c1 where
    u: "updateZoneGaugeByLabel e zoneId zoneName (p @ since c) hlp byLabel vals c = Inr c1"
    and i1: "cm_inv c1" and s1: "since c1 = since c"
    by blast
  with s
  show "\<exists>c1. updateZoneGaugeByLabel e zoneId zoneName (p @ since c) hlp byLabel vals c = Inr c1 \<and>
      cm_inv c1 \<and> since c1 = s"
    by (intro exI[of _ c1] conjI) simp_all
qed

lemma updateZone_gauges_returns:
  assumes inv: "cm_inv cm" and reg: "registry_accepts e (since cm)"
    and vi: "utf8_ValidString zoneId" and vn: "utf8_ValidString zoneName"
    and vd: "snapshot_keys_valid d"
  shows "\<exists>cm1. updateZone_gauges e zoneId zoneName d cm = Inr cm1 \<and> cm_inv cm1 \<and>
           since cm1 = since cm"
proof -
  let ?Q = "\<lambda>c. cm_inv c \<and> since c = since cm"
  note sc_step = scalar_step[OF reg vi vn]
  note lb_step = label_step[OF reg vi vn]
  from vd have keys:
    "list_all utf8_ValidString (map fst (Requests_ContentType (Requests (Totals d))))"
    "list_all utf8_ValidString (map fst (Requests_Country (Requests (Totals d))))"
    "list_all utf8_ValidString (map fst (Requests_HTTPStatus (Requests (Totals d))))"
    "list_all utf8_ValidString (map fst (Bandwidth_ContentType (Bandwidth (Totals d))))"
    "list_all utf8_ValidString (map fst (Bandwidth_Country (Bandwidth (Totals d))))"
    "list_all utf8_ValidString (map fst (Threats_Country (Threats (Totals d))))"
    "list_all utf8_ValidString (map fst (Threats_Type (Threats (Totals d))))"
    "list_all utf8_ValidString (map fst (Pageviews_SearchEngines (Pageviews (Totals d))))"
    by (simp_all add: snapshot_keys_valid_def snapshot_keys_def)
  from inv have q: "?Q cm" by simp
  show ?thesis
    unfolding updateZone_gauges_def
    apply (rule seqP_inv[where Q = ?Q, OF _ q])
    apply (simp only: list.set ball_simps ball_empty simp_thms)
    apply (intro conjI)
    apply ((rule sc_step, simp add: zone_metrics_def) |
           (rule lb_step, simp add: zone_metrics_def, rule keys))+
    done
qed

text \<open>
  When the calls to the API succeed, the zone id, the zone name and the breakdown keys
  of the snapshot are valid UTF-8, and the metrics registry takes the program's vectors,
  \<open>updateZone\<close> returns, from any registry that satisfies \<open>cm_inv\<close>, with a registry
  that satisfies it. Likewise \<open>updateAccount\<close>, when every token has an expiration and
  the account id and the token names are valid UTF-8. The state \<open>New\<close> returns
  satisfies \<open>cm_inv\<close>.
\<close>

lemma cm_inv_New:
  assumes "New e config = Inr cm"
  shows "cm_inv cm"
proof -
  from assms obtain a where "cm = newWithAPI a config"
    by (auto simp: New_def newWithEmailAuth_def newWithTokenAuth_def
        newWithUserServiceKeyAuth_def split: if_splits sum.splits)
  then show ?thesis by (simp add: cm_inv_newWithAPI)
qed

lemma updateZone_returns:
  assumes inv: "cm_inv cm" and reg: "registry_accepts e (since cm)"
    and zid: "ZoneIDByName e (api cm) zoneName w = (Inr zoneId, w1)"
    and dur: "ParseDuration e (''-'' @ since cm) = Inr dur"
    and fetch: "ZoneAnalyticsDashboard e (api cm) zoneId (Now e w1 + dur) False w1 = (Inr d, w2)"
    and vi: "utf8_ValidString zoneId" and vn: "utf8_ValidString zoneName"
    and vd: "snapshot_keys_valid d"
  shows "\<exists>cm1. updateZone e zoneName (w, cm) = Inr (w2, cm1) \<and> cm_inv cm1 \<and>
           since cm1 = since cm"
proof -
  from updateZone_gauges_returns[OF inv reg vi vn vd] obtain cm1 where
    g: "updateZone_gauges e zoneId zoneName d cm = Inr cm1"
    and i1: "cm_inv cm1" and s1: "since cm1 = since cm"
    by blast
  have "updateZone e zoneName (w, cm) = Inr (w2, cm1)"
    unfolding updateZone_fetched[OF zid dur fetch] g by simp
  with i1 s1 show ?thesis by (intro exI[of _ cm1] conjI)
qed

lemma updateAccount_returns:
  assumes inv: "cm_inv cm" and reg: "registry_accepts e (since cm)"
    and fetch: "AccessServiceTokens e (api cm) accountId w = (Inr tokens, w1)"
    and nonnil: "\<forall>t \<in> set tokens. token_ExpiresAt t \<noteq> None"
    and va: "utf8_ValidString accountId"
    and vt: "\<forall>t \<in> set tokens. utf8_ValidString (token_Name t)"
  shows "\<exists>cm1. updateAccount e accountId (w, cm) = Inr (w1, cm1) \<and> cm_inv cm1 \<and>
           since cm1 = since cm"
proof -
  let ?name = "''access_service_token_expiration''"
  let ?hlp = "''The current unix timestamp at which a service token expires''"
  let ?base = "[(''account_id'', accountId)]"
  from tokenExpirations_spec[OF nonnil, of "[]"] obtain m where
    te: "tokenExpirations tokens [] = Inr m"
    and lk: "\<forall>n. map_of m n =
               (case last_expiration tokens n of Some x \<Rightarrow> Some x | None \<Rightarrow> map_of [] n)"
    by (elim exE conjE) (rule that, (assumption | simp)+)
  have vk: "\<forall>k \<in> fst ` set m. utf8_ValidString k"
  proof
    fix k assume "k \<in> fst ` set m"
    then have "map_of m k \<noteq> None" by (simp add: map_of_eq_None_iff)
    with lk have "last_expiration tokens k \<noteq> None" by (auto split: option.splits)
    with last_expiration_None[of k tokens] have "k \<in> token_Name ` set tokens" by blast
    with vt show "utf8_ValidString k" by blast
  qed
  have ex: "expected_labels (since cm) ?name = Some [''account_id'', ''token_name'']"
    by (rule expected_labels_account)
  have fit: "set [''account_id'', ''token_name''] = insert ''token_name'' (fst ` set ?base)"
    by auto
  have db: "distinct (map fst ?base)" by simp
  from va have vb: "valid_values ?base" by simp
  from registry_accepts_account[OF reg]
  have reg1: "MustRegister_ok e
      (NewGaugeVec ?name ?hlp (map fst (AList.update ''token_name'' [] ?base)))"
    by (simp add: account_vector_def)
  from by_label_ok[OF inv reg1 ex fit db vb vk] obtain c cm1 where
    c: "createGaugeIfNotExists e ?name ?hlp (AList.update ''token_name'' [] ?base) cm = Inr c"
    and r: "range_values ?name ''token_name'' (AList.update ''token_name'' [] ?base) m c = Inr cm1"
    and i1: "cm_inv cm1" and s1: "since cm1 = since cm"
    by blast
  have ua: "updateAccountGaugeByLabel e accountId ?name ?hlp ''token_name'' m cm = Inr cm1"
    unfolding updateAccountGaugeByLabel_def Let_def c using r by simp
  from fetch te ua have "updateAccount e accountId (w, cm) = Inr (w1, cm1)" by simp
  with i1 s1 show ?thesis by (intro exI[of _ cm1] conjI)
qed

lemma updateZone_returns_example:
  "\<exists>cm1. updateZone demo_env ''example.com'' (0, demo_cm) = Inr (2, cm1) \<and> cm_inv cm1"
proof -
  have inv: "cm_inv demo_cm"
    unfolding demo_cm_def by (rule cm_inv_newWithAPI)
  have reg: "registry_accepts demo_env (since demo_cm)"
    by (simp add: registry_accepts_def demo_env_def list_all_iff)
  have s: "since demo_cm = ''24h''"
    by (simp add: demo_cm_def newWithAPI_def demo_config_def)
  have zid: "ZoneIDByName demo_env (api demo_cm) ''example.com'' 0 = (Inr ''id-example.com'', 1)"
    by (simp add: demo_env_def)
  have dur: "ParseDuration demo_env (''-'' @ since demo_cm) = Inr (- 86400000000000)"
    by (simp add: s demo_env_def)
  have fetch: "ZoneAnalyticsDashboard demo_env (api demo_cm) ''id-example.com''
     (Now demo_env 1 + - 86400000000000) False 1 = (Inr demo_data, 2)"
    by (simp add: demo_env_def)
  have vi: "utf8_ValidString ''id-example.com''" by simp
  have vn: "utf8_ValidString ''example.com''" by simp
  have vd: "snapshot_keys_valid demo_data"
    by (simp add: snapshot_keys_valid_def snapshot_keys_def demo_data_def)
  from updateZone_returns[OF inv reg zid dur fetch vi vn vd] show ?thesis by blast
qed

lemma updateAccount_returns_example:
  "\<exists>cm1. updateAccount demo_env ''acct1'' (0, demo_cm) = Inr (1, cm1) \<and> cm_inv cm1"
proof -
  let ?tokens = "[\<lparr> token_Name = ''tok1'', token_ExpiresAt = Some 1700000000 \<rparr>]"
  have inv: "cm_inv demo_cm"
    unfolding demo_cm_def by (rule cm_inv_newWithAPI)
  have reg: "registry_accepts demo_env (since demo_cm)"
    by (simp add: registry_accepts_def demo_env_def list_all_iff)
  have fetch: "AccessServiceTokens demo_env (api demo_cm) ''acct1'' 0 = (Inr ?tokens, 1)"
    by (simp add: demo_env_def)
  have nonnil: "\<forall>t \<in> set ?tokens. token_ExpiresAt t \<noteq> None" by simp
  have va: "utf8_ValidString ''acct1''" by simp
  have vt: "\<forall>t \<in> set ?tokens. utf8_ValidString (token_Name t)" by simp
  from updateAccount_returns[OF inv reg fetch nonnil va vt] show ?thesis by blast
qed

text \<open>
  An account id that is not valid UTF-8 makes \<open>updateAccount\<close> panic: the byte 255
  begins no UTF-8 encoding.
\<close>

lemma updateAccount_invalid_utf8_panics:
  "updateAccount demo_env [CHR 0xFF] (0, demo_cm) = Inl panicInvalidLabelValue"
  by (simp add: updateAccountGaugeByLabel_def createGaugeIfNotExists_def With_Set_def
      With_def NewGaugeVec_def Let_def demo_cm_def demo_env_def newWithAPI_def)

end
